theory Spec2Isabelle
  imports Main "HOL-Library.AList" "HOL-Library.Char_ord" "HOL-Library.List_Lexorder"
begin

section \<open>SimpleDB: statement parser, tables and engine\<close>

text \<open>
  A shallow embedding of the in-memory database of \<^verbatim>\<open>examples/database\<close>:
  \<^verbatim>\<open>query_parser.cpp\<close> (tokenizer and statement parser), \<^verbatim>\<open>table.cpp\<close> (schema, rows,
  conversion of literals, the single-predicate filter, rendering) and
  \<^verbatim>\<open>database_engine.cpp\<close> (registry of tables, dispatch of parsed statements).

  A \<^verbatim>\<open>std::string\<close> is a \<^typ>\<open>string\<close> (a list of bytes), a \<^verbatim>\<open>std::vector\<close> a list.
  Exceptions are values of the type \<open>error\<close>; a function that can throw returns
  \<open>error + 'a\<close>, a member function that can throw and mutates its object returns the
  pair of the error (if any) and the object as the call leaves it.
\<close>

subsection \<open>Characters and whitespace-separated extraction\<close>

text \<open>\<^verbatim>\<open>isspace\<close> of the C locale: space, \<^verbatim>\<open>\t \n \v \f \r\<close>.\<close>

definition isspace :: "char \<Rightarrow> bool" where
  "isspace c = (c \<in> {CHR '' '', CHR 0x09, CHR 0x0A, CHR 0x0B, CHR 0x0C, CHR 0x0D})"

text \<open>
  \<^verbatim>\<open>::tolower\<close> of the C locale maps \<^verbatim>\<open>'A'..'Z'\<close> to \<^verbatim>\<open>'a'..'z'\<close> (adds 32, which sets the
  bit of weight 32, clear in every upper-case letter) and leaves the other bytes alone.
\<close>

definition tolower :: "char \<Rightarrow> char" where
  "tolower c =
     (if CHR ''A'' \<le> c \<and> c \<le> CHR ''Z''
      then (case c of Char b0 b1 b2 b3 b4 b5 b6 b7 \<Rightarrow> Char b0 b1 b2 b3 b4 True b6 b7)
      else c)"

text \<open>
  The loop \<^verbatim>\<open>while (iss >> token)\<close> over a \<^verbatim>\<open>std::istringstream\<close>: the maximal runs of
  non-whitespace bytes, in order. The first argument is the run being read.
\<close>

fun split_ws :: "string \<Rightarrow> string \<Rightarrow> string list" where
  "split_ws cur [] = (if cur = [] then [] else [cur])"
| "split_ws cur (c # cs) =
     (if isspace c then (if cur = [] then split_ws [] cs else cur # split_ws [] cs)
      else split_ws (cur @ [c]) cs)"

definition extract_all :: "string \<Rightarrow> string list" where
  "extract_all s = split_ws [] s"

subsection \<open>Errors\<close>

text \<open>
  The three exception classes the code throws or lets through, all derived from
  \<^verbatim>\<open>std::exception\<close>: \<^verbatim>\<open>std::runtime_error\<close> (thrown by the parser, the table and the
  engine), \<^verbatim>\<open>std::invalid_argument\<close> and \<^verbatim>\<open>std::out_of_range\<close> (thrown by
  \<^verbatim>\<open>std::stoi\<close> and \<^verbatim>\<open>std::stod\<close>). \<open>OutOfBounds\<close> is not an exception: it stands for an
  unchecked \<^verbatim>\<open>operator[]\<close> outside the vector, which no handler catches.
\<close>

datatype error =
    RuntimeError string
  | InvalidArgument string
  | OutOfRange string
  | OutOfBounds

fun is_std_exception :: "error \<Rightarrow> bool" where
  "is_std_exception OutOfBounds = False"
| "is_std_exception _ = True"

fun what :: "error \<Rightarrow> string" where
  "what (RuntimeError m) = m"
| "what (InvalidArgument m) = m"
| "what (OutOfRange m) = m"
| "what OutOfBounds = []"

subsection \<open>QueryParser\<close>

text \<open>
  One round of the body of \<^verbatim>\<open>QueryParser::tokenize\<close>, for one extracted \<^verbatim>\<open>token\<close>. The
  \<^verbatim>\<open>while\<close> over trailing punctuation ends in an unconditional \<^verbatim>\<open>break\<close> after having
  set \<^verbatim>\<open>current = ""\<close>, so it runs at most once and the two tests after it then see an
  empty \<^verbatim>\<open>current\<close>.
\<close>

definition tokenize_token :: "string \<Rightarrow> string list" where
  "tokenize_token token =
     (let (pushed1, current1) =
            (if token \<noteq> [] \<and> (last token = CHR '','' \<or> last token = CHR '';'' \<or> last token = CHR '')'')
             then (let punct = last token; current = butlast token
                   in ((if current \<noteq> [] then [current] else []) @
                       (if punct = CHR '','' \<or> punct = CHR '')'' then [[punct]] else []),
                       []))
             else ([], token));
          (pushed2, current2) =
            (if current1 \<noteq> [] \<and> hd current1 = CHR ''(''
             then ([''(''], tl current1)
             else ([], current1));
          pushed3 = (if current2 \<noteq> [] then [current2] else [])
      in pushed1 @ pushed2 @ pushed3)"

definition tokenize :: "string \<Rightarrow> string list" where
  "tokenize query = concat (map tokenize_token (extract_all query))"

definition toLower :: "string \<Rightarrow> string" where
  "toLower str = map tolower str"

text \<open>\<^verbatim>\<open>enum class QueryType\<close>, \<^verbatim>\<open>struct Column\<close> and \<^verbatim>\<open>struct ParsedQuery\<close> of the headers.\<close>

datatype QueryType = CREATE_TABLE | INSERT | SELECT | DROP_TABLE | SHOW_TABLES | DESCRIBE | UNKNOWN

datatype Column = Column (col_name: string) (col_type: string)

record ParsedQuery =
  q_type :: QueryType
  q_table_name :: string
  q_columns :: "Column list"
  q_selected_columns :: "string list"
  q_values :: "string list"
  q_where_clause :: string

text \<open>The default constructor \<^verbatim>\<open>ParsedQuery() : type(QueryType::UNKNOWN)\<close>.\<close>

definition new_ParsedQuery :: ParsedQuery where
  "new_ParsedQuery =
     \<lparr>q_type = UNKNOWN, q_table_name = [], q_columns = [], q_selected_columns = [],
      q_values = [], q_where_clause = []\<rparr>"

text \<open>
  \<^verbatim>\<open>while (start < tokens.size() && tokens[start] != "(") start++; ... start++\<close>: the
  tokens after the first opening parenthesis, or nothing when the scan reaches the end.
  It is applied to the tokens from the starting index on.
\<close>

fun after_open_paren :: "string list \<Rightarrow> string list option" where
  "after_open_paren [] = None"
| "after_open_paren (t # ts) = (if t = ''('' then Some ts else after_open_paren ts)"

text \<open>
  The column loop of \<^verbatim>\<open>parseCreateTable\<close> over the tokens from index \<^verbatim>\<open>i\<close> on: stop at
  \<^verbatim>\<open>)\<close>, skip \<^verbatim>\<open>,\<close>, record a pair and step over its type when a next token exists and is
  neither \<^verbatim>\<open>,\<close> nor \<^verbatim>\<open>)\<close>, otherwise step over the one token.
\<close>

fun column_defs :: "string list \<Rightarrow> Column list" where
  "column_defs [] = []"
| "column_defs [t] = []"
| "column_defs (t # u # ts) =
     (if t = '')'' then []
      else if t = '','' then column_defs (u # ts)
      else if u \<noteq> '','' \<and> u \<noteq> '')'' then Column t (toLower u) # column_defs ts
      else column_defs (u # ts))"

definition parseCreateTable :: "string list \<Rightarrow> ParsedQuery \<Rightarrow> error + ParsedQuery" where
  "parseCreateTable tokens query =
     (if length tokens < 4 then Inl (RuntimeError ''Invalid CREATE TABLE syntax'')
      else (let query1 = query\<lparr>q_table_name := tokens ! 2\<rparr>
            in case after_open_paren (drop 3 tokens) of
                 None \<Rightarrow> Inl (RuntimeError ''Missing column definitions in CREATE TABLE'')
               | Some defs \<Rightarrow>
                   Inr (query1\<lparr>q_columns := q_columns query1 @ column_defs defs\<rparr>)))"

text \<open>One layer of straight quotes, double or single, around a value of two or more bytes.\<close>

definition strip_quotes :: "string \<Rightarrow> string" where
  "strip_quotes v =
     (if 2 \<le> length v \<and>
         ((hd v = CHR 0x22 \<and> last v = CHR 0x22) \<or> (hd v = CHR 0x27 \<and> last v = CHR 0x27))
      then butlast (tl v) else v)"

fun insert_values :: "string list \<Rightarrow> string list" where
  "insert_values [] = []"
| "insert_values (t # ts) =
     (if t = '')'' then []
      else if t = '','' then insert_values ts
      else strip_quotes t # insert_values ts)"

definition parseInsert :: "string list \<Rightarrow> ParsedQuery \<Rightarrow> error + ParsedQuery" where
  "parseInsert tokens query =
     (if length tokens < 5 then Inl (RuntimeError ''Invalid INSERT syntax'')
      else if toLower (tokens ! 1) \<noteq> ''into''
      then Inl (RuntimeError (''Expected '' @ [CHR 0x27] @ ''INTO'' @ [CHR 0x27] @ '' after '' @
                              [CHR 0x27] @ ''INSERT'' @ [CHR 0x27]))
      else (let query1 = query\<lparr>q_table_name := tokens ! 2\<rparr>
            in if toLower (tokens ! 3) \<noteq> ''values''
               then Inl (RuntimeError (''Expected '' @ [CHR 0x27] @ ''VALUES'' @ [CHR 0x27] @
                                       '' in INSERT statement''))
               else (case after_open_paren (drop 4 tokens) of
                       None \<Rightarrow> Inl (RuntimeError ''Missing values in INSERT statement'')
                     | Some vs \<Rightarrow>
                         Inr (query1\<lparr>q_values := q_values query1 @ insert_values vs\<rparr>))))"

text \<open>
  The two keyword searches of \<^verbatim>\<open>parseSelect\<close>: the index of the first token from index
  \<^verbatim>\<open>i\<close> on whose lower-case form is the keyword, and \<^verbatim>\<open>0\<close> (the initial value of
  \<^verbatim>\<open>from_pos\<close> and \<^verbatim>\<open>where_pos\<close>) when there is none. The list is the tokens from \<^verbatim>\<open>i\<close> on.
\<close>

fun keyword_pos :: "string \<Rightarrow> string list \<Rightarrow> nat \<Rightarrow> nat" where
  "keyword_pos kw [] i = 0"
| "keyword_pos kw (t # ts) i = (if toLower t = kw then i else keyword_pos kw ts (Suc i))"

text \<open>
  The projection loop over the tokens between \<^verbatim>\<open>SELECT\<close> and \<^verbatim>\<open>FROM\<close>; the first argument
  is \<^verbatim>\<open>query.selected_columns\<close> so far. A star clears the list and ends the loop.
\<close>

fun projection :: "string list \<Rightarrow> string list \<Rightarrow> string list" where
  "projection acc [] = acc"
| "projection acc (t # ts) =
     (if t = '','' then projection acc ts
      else if t = ''*'' then []
      else projection (acc @ [t]) ts)"

definition parseSelect :: "string list \<Rightarrow> ParsedQuery \<Rightarrow> error + ParsedQuery" where
  "parseSelect tokens query =
     (if length tokens < 4 then Inl (RuntimeError ''Invalid SELECT syntax'')
      else (let from_pos = keyword_pos ''from'' (drop 1 tokens) 1
            in if from_pos = 0
               then Inl (RuntimeError (''Missing '' @ [CHR 0x27] @ ''FROM'' @ [CHR 0x27] @
                                       '' in SELECT statement''))
               else (let query1 = query\<lparr>q_selected_columns :=
                                    projection (q_selected_columns query)
                                      (take (from_pos - 1) (drop 1 tokens))\<rparr>
                     in if length tokens \<le> from_pos + 1
                        then Inl (RuntimeError (''Missing table name after '' @ [CHR 0x27] @
                                                ''FROM'' @ [CHR 0x27]))
                        else (let query2 = query1\<lparr>q_table_name := tokens ! (from_pos + 1)\<rparr>;
                                  where_pos = keyword_pos ''where'' (drop (from_pos + 2) tokens)
                                                (from_pos + 2)
                              in if 0 < where_pos \<and> where_pos + 3 < length tokens
                                 then Inr (query2\<lparr>q_where_clause :=
                                             tokens ! (where_pos + 1) @ '' '' @
                                             tokens ! (where_pos + 2) @ '' '' @
                                             tokens ! (where_pos + 3)\<rparr>)
                                 else Inr query2))))"

definition parseDropTable :: "string list \<Rightarrow> ParsedQuery \<Rightarrow> error + ParsedQuery" where
  "parseDropTable tokens query =
     (if length tokens < 3 then Inl (RuntimeError ''Invalid DROP TABLE syntax'')
      else Inr (query\<lparr>q_table_name := tokens ! 2\<rparr>))"

definition parseDescribe :: "string list \<Rightarrow> ParsedQuery \<Rightarrow> error + ParsedQuery" where
  "parseDescribe tokens query =
     (if length tokens < 2 then Inl (RuntimeError ''Invalid DESCRIBE syntax'')
      else Inr (query\<lparr>q_table_name := tokens ! 1\<rparr>))"

definition parse :: "string \<Rightarrow> error + ParsedQuery" where
  "parse query =
     (let parsed_query = new_ParsedQuery; tokens = tokenize query
      in if tokens = [] then Inr parsed_query
         else (let first_token = toLower (tokens ! 0)
               in if first_token = ''create''
                  then (if 1 < length tokens \<and> toLower (tokens ! 1) = ''table''
                        then parseCreateTable tokens (parsed_query\<lparr>q_type := CREATE_TABLE\<rparr>)
                        else Inr parsed_query)
                  else if first_token = ''insert''
                  then parseInsert tokens (parsed_query\<lparr>q_type := INSERT\<rparr>)
                  else if first_token = ''select''
                  then parseSelect tokens (parsed_query\<lparr>q_type := SELECT\<rparr>)
                  else if first_token = ''drop''
                  then (if 1 < length tokens \<and> toLower (tokens ! 1) = ''table''
                        then parseDropTable tokens (parsed_query\<lparr>q_type := DROP_TABLE\<rparr>)
                        else Inr parsed_query)
                  else if first_token = ''show''
                  then (if 1 < length tokens \<and> toLower (tokens ! 1) = ''tables''
                        then Inr (parsed_query\<lparr>q_type := SHOW_TABLES\<rparr>)
                        else Inr parsed_query)
                  else if first_token = ''describe'' \<or> first_token = ''desc''
                  then parseDescribe tokens (parsed_query\<lparr>q_type := DESCRIBE\<rparr>)
                  else Inr parsed_query))"

subsection \<open>Values and conversion of literals\<close>

text \<open>
  \<^verbatim>\<open>using Value = std::variant<int, double, std::string, bool>\<close>. The payload of the
  \<^verbatim>\<open>double\<close> alternative is a type parameter, and what the code asks of doubles is a
  record of operations passed to the functions that need them: \<^verbatim>\<open>std::stod\<close>, the
  comparisons \<^verbatim>\<open>==\<close> and \<^verbatim>\<open><\<close> of two doubles, and \<^verbatim>\<open>std::to_string(double)\<close>. Every
  general theorem below holds for all such operations.
\<close>

datatype 'd Value = VInt int | VDouble 'd | VString string | VBool bool

type_synonym 'd Row = "'d Value list"

text \<open>
  \<^verbatim>\<open>std::stod\<close> returns a double, or throws \<^verbatim>\<open>std::invalid_argument\<close> (no conversion
  could be performed) or \<^verbatim>\<open>std::out_of_range\<close>.
\<close>

datatype 'd stod_result = Converted 'd | NoConversion | RangeError

record 'd double_ops =
  stod :: "string \<Rightarrow> 'd stod_result"
  double_eq :: "'d \<Rightarrow> 'd \<Rightarrow> bool"
  double_less :: "'d \<Rightarrow> 'd \<Rightarrow> bool"
  double_to_string :: "'d \<Rightarrow> string"

definition isdigit :: "char \<Rightarrow> bool" where
  "isdigit c = (CHR ''0'' \<le> c \<and> c \<le> CHR ''9'')"

text \<open>The value of a run of decimal digits; the first argument is the value read so far.\<close>

fun digits_value :: "int \<Rightarrow> string \<Rightarrow> int" where
  "digits_value acc [] = acc"
| "digits_value acc (c # cs) = digits_value (10 * acc + (of_char c - 48)) cs"

text \<open>
  \<^verbatim>\<open>std::stoi(str)\<close>, that is \<^verbatim>\<open>strtol\<close> in base 10 followed by the check that the result
  fits an \<^verbatim>\<open>int\<close> (32 bits): leading whitespace is skipped, one sign is accepted, the
  longest run of digits is converted and whatever follows it is ignored. No digit throws
  \<^verbatim>\<open>std::invalid_argument\<close>, a value outside the range of \<^verbatim>\<open>int\<close> throws
  \<^verbatim>\<open>std::out_of_range\<close>; the message of both is \<^verbatim>\<open>stoi\<close>.
\<close>

definition stoi :: "string \<Rightarrow> error + int" where
  "stoi str =
     (let s1 = dropWhile isspace str;
          negative = (s1 \<noteq> [] \<and> hd s1 = CHR ''-'');
          s2 = (if s1 \<noteq> [] \<and> (hd s1 = CHR ''-'' \<or> hd s1 = CHR ''+'') then tl s1 else s1);
          ds = takeWhile isdigit s2
      in if ds = [] then Inl (InvalidArgument ''stoi'')
         else (let n = (if negative then - digits_value 0 ds else digits_value 0 ds)
               in if n < - 2147483648 \<or> 2147483647 < n then Inl (OutOfRange ''stoi'')
                  else Inr n))"

definition parseValue :: "'d double_ops \<Rightarrow> string \<Rightarrow> string \<Rightarrow> error + 'd Value" where
  "parseValue ops value_str type =
     (if type = ''int'' then
        (case stoi value_str of Inl e \<Rightarrow> Inl e | Inr n \<Rightarrow> Inr (VInt n))
      else if type = ''double'' then
        (case stod ops value_str of
           Converted d \<Rightarrow> Inr (VDouble d)
         | NoConversion \<Rightarrow> Inl (InvalidArgument ''stod'')
         | RangeError \<Rightarrow> Inl (OutOfRange ''stod''))
      else if type = ''bool'' then
        (let lower = map tolower value_str in Inr (VBool (lower = ''true'' \<or> lower = ''1'')))
      else Inr (VString value_str))"

text \<open>\<^verbatim>\<open>std::to_string\<close> of an unsigned and of a signed integer: decimal digits.\<close>

fun show_nat :: "nat \<Rightarrow> string" where
  "show_nat n = (if n < 10 then [''0123456789'' ! n] else show_nat (n div 10) @ [''0123456789'' ! (n mod 10)])"

declare show_nat.simps [simp del]

definition show_int :: "int \<Rightarrow> string" where
  "show_int i = (if i < 0 then CHR ''-'' # show_nat (nat (- i)) else show_nat (nat i))"

fun valueToString :: "'d double_ops \<Rightarrow> 'd Value \<Rightarrow> string" where
  "valueToString ops (VString v) = v"
| "valueToString ops (VBool v) = (if v then ''true'' else ''false'')"
| "valueToString ops (VInt v) = show_int v"
| "valueToString ops (VDouble v) = double_to_string ops v"

text \<open>
  The relational operators of \<^verbatim>\<open>std::variant\<close>: two values that hold different
  alternatives compare by the index of the alternative, two that hold the same one by
  their payloads. \<^verbatim>\<open>a > b\<close> on doubles is \<^verbatim>\<open>b < a\<close>, \<^verbatim>\<open>a <= b\<close> is \<^verbatim>\<open>a < b || a == b\<close>.
\<close>

fun index :: "'d Value \<Rightarrow> nat" where
  "index (VInt _) = 0"
| "index (VDouble _) = 1"
| "index (VString _) = 2"
| "index (VBool _) = 3"

fun value_eq :: "'d double_ops \<Rightarrow> 'd Value \<Rightarrow> 'd Value \<Rightarrow> bool" where
  "value_eq ops (VInt a) (VInt b) = (a = b)"
| "value_eq ops (VDouble a) (VDouble b) = double_eq ops a b"
| "value_eq ops (VString a) (VString b) = (a = b)"
| "value_eq ops (VBool a) (VBool b) = (a = b)"
| "value_eq ops _ _ = False"

fun value_less :: "'d double_ops \<Rightarrow> 'd Value \<Rightarrow> 'd Value \<Rightarrow> bool" where
  "value_less ops (VInt a) (VInt b) = (a < b)"
| "value_less ops (VDouble a) (VDouble b) = double_less ops a b"
| "value_less ops (VString a) (VString b) = (a < b)"
| "value_less ops (VBool a) (VBool b) = (a < b)"
| "value_less ops v w = (index v < index w)"

fun value_less_eq :: "'d double_ops \<Rightarrow> 'd Value \<Rightarrow> 'd Value \<Rightarrow> bool" where
  "value_less_eq ops (VInt a) (VInt b) = (a \<le> b)"
| "value_less_eq ops (VDouble a) (VDouble b) = (double_less ops a b \<or> double_eq ops a b)"
| "value_less_eq ops (VString a) (VString b) = (a \<le> b)"
| "value_less_eq ops (VBool a) (VBool b) = (a \<le> b)"
| "value_less_eq ops v w = (index v < index w)"

subsection \<open>Table\<close>

record 'd Table =
  table_name :: string
  columns :: "Column list"
  rows :: "'d Row list"
  column_index_map :: "string \<rightharpoonup> nat"

definition new_Table :: "string \<Rightarrow> 'd Table" where
  "new_Table name =
     \<lparr>table_name = name, columns = [], rows = [], column_index_map = Map.empty\<rparr>"

definition addColumn :: "'d Table \<Rightarrow> string \<Rightarrow> string \<Rightarrow> 'd Table" where
  "addColumn t name type =
     t\<lparr>columns := columns t @ [Column name type],
       column_index_map := (column_index_map t)(name \<mapsto> length (columns t))\<rparr>"

definition hasColumn :: "'d Table \<Rightarrow> string \<Rightarrow> bool" where
  "hasColumn t name = (column_index_map t name \<noteq> None)"

definition quoted :: "string \<Rightarrow> string" where
  "quoted name = [CHR 0x27] @ name @ [CHR 0x27]"

definition getColumnIndex :: "'d Table \<Rightarrow> string \<Rightarrow> error + nat" where
  "getColumnIndex t name =
     (case column_index_map t name of
        None \<Rightarrow> Inl (RuntimeError (''Column '' @ quoted name @ '' not found''))
      | Some i \<Rightarrow> Inr i)"

text \<open>\<^verbatim>\<open>void Table::insertRow(const Row& row)\<close>.\<close>

definition insertRow :: "'d Table \<Rightarrow> 'd Row \<Rightarrow> error option \<times> 'd Table" where
  "insertRow t row =
     (if length row \<noteq> length (columns t)
      then (Some (RuntimeError (''Row size doesn'' @ [CHR 0x27] @ ''t match number of columns'')), t)
      else (None, t\<lparr>rows := rows t @ [row]\<rparr>))"

text \<open>
  The loop of the second overload, \<^verbatim>\<open>row.push_back(parseValue(values[i], columns[i].type))\<close>
  for \<^verbatim>\<open>i\<close> from 0: the local row, or the exception of the first conversion that throws.
  The lists are the values and the columns from \<^verbatim>\<open>i\<close> on.
\<close>

fun convert_values :: "'d double_ops \<Rightarrow> string list \<Rightarrow> Column list \<Rightarrow> error + 'd Row" where
  "convert_values ops [] cs = Inr []"
| "convert_values ops (v # vs) [] = Inl OutOfBounds"
| "convert_values ops (v # vs) (c # cs) =
     (case parseValue ops v (col_type c) of
        Inl e \<Rightarrow> Inl e
      | Inr x \<Rightarrow> (case convert_values ops vs cs of Inl e \<Rightarrow> Inl e | Inr xs \<Rightarrow> Inr (x # xs)))"

text \<open>\<^verbatim>\<open>void Table::insertRow(const std::vector<std::string>& values)\<close>.\<close>

definition insertRow_strings ::
  "'d double_ops \<Rightarrow> 'd Table \<Rightarrow> string list \<Rightarrow> error option \<times> 'd Table" where
  "insertRow_strings ops t values =
     (if length values \<noteq> length (columns t)
      then (Some (RuntimeError (''Number of values doesn'' @ [CHR 0x27] @
                                ''t match number of columns'')), t)
      else (case convert_values ops values (columns t) of
              Inl e \<Rightarrow> (Some e, t)
            | Inr row \<Rightarrow> (None, t\<lparr>rows := rows t @ [row]\<rparr>)))"

definition evaluateCondition :: "'d double_ops \<Rightarrow> 'd Table \<Rightarrow> 'd Row \<Rightarrow> string \<Rightarrow> error + bool" where
  "evaluateCondition ops t row condition =
     (case extract_all condition of
        column_name # op # value_str # _ \<Rightarrow>
          if \<not> hasColumn t column_name then Inr False
          else (case getColumnIndex t column_name of
                  Inl e \<Rightarrow> Inl e
                | Inr col_idx \<Rightarrow>
                    if length row \<le> col_idx \<or> length (columns t) \<le> col_idx then Inl OutOfBounds
                    else (let row_value = row ! col_idx
                          in case parseValue ops value_str (col_type (columns t ! col_idx)) of
                               Inl e \<Rightarrow> Inl e
                             | Inr condition_value \<Rightarrow>
                                 if op = ''='' then Inr (value_eq ops row_value condition_value)
                                 else if op = ''!='' then Inr (\<not> value_eq ops row_value condition_value)
                                 else if op = ''<'' then Inr (value_less ops row_value condition_value)
                                 else if op = ''>'' then Inr (value_less ops condition_value row_value)
                                 else if op = ''<='' then Inr (value_less_eq ops row_value condition_value)
                                 else if op = ''>='' then Inr (value_less_eq ops condition_value row_value)
                                 else Inr False))
      | _ \<Rightarrow> Inr True)"

text \<open>
  The loop of \<^verbatim>\<open>selectRows\<close> over the rows from index \<^verbatim>\<open>i\<close> on: the indices of the rows
  kept, or the exception of the first evaluation that throws.
\<close>

fun select_from ::
  "'d double_ops \<Rightarrow> 'd Table \<Rightarrow> string \<Rightarrow> nat \<Rightarrow> 'd Row list \<Rightarrow> error + nat list" where
  "select_from ops t where_clause i [] = Inr []"
| "select_from ops t where_clause i (r # rs) =
     (case (if where_clause = [] then Inr True else evaluateCondition ops t r where_clause) of
        Inl e \<Rightarrow> Inl e
      | Inr keep \<Rightarrow>
          (case select_from ops t where_clause (Suc i) rs of
             Inl e \<Rightarrow> Inl e
           | Inr result \<Rightarrow> Inr (if keep then i # result else result)))"

definition selectRows :: "'d double_ops \<Rightarrow> 'd Table \<Rightarrow> string \<Rightarrow> error + nat list" where
  "selectRows ops t where_clause = select_from ops t where_clause 0 (rows t)"

text \<open>\<^verbatim>\<open>std::left << std::setw(w)\<close> and \<^verbatim>\<open>std::right << std::setw(w)\<close>: padding, never truncation.\<close>

definition pad_left_aligned :: "nat \<Rightarrow> string \<Rightarrow> string" where
  "pad_left_aligned w s = s @ replicate (w - length s) CHR '' ''"

definition pad_right_aligned :: "nat \<Rightarrow> string \<Rightarrow> string" where
  "pad_right_aligned w s = replicate (w - length s) CHR '' '' @ s"

text \<open>
  The first loop of \<^verbatim>\<open>printRows\<close> when columns are named: index and header of each named
  column that exists, in the order named; a name that is no column is passed over.
\<close>

fun named_columns :: "'d Table \<Rightarrow> string list \<Rightarrow> (nat \<times> string) list" where
  "named_columns t [] = []"
| "named_columns t (name # rest) =
     (case column_index_map t name of
        Some i \<Rightarrow> (i, name) # named_columns t rest
      | None \<Rightarrow> named_columns t rest)"

text \<open>\<^verbatim>\<open>valueToString(rows[row_idx][col_indices[i]])\<close> for each \<^verbatim>\<open>i\<close>, for one stored row.\<close>

fun render_cells :: "'d double_ops \<Rightarrow> 'd Row \<Rightarrow> nat list \<Rightarrow> error + string list" where
  "render_cells ops row [] = Inr []"
| "render_cells ops row (ci # cis) =
     (if length row \<le> ci then Inl OutOfBounds
      else (case render_cells ops row cis of
              Inl e \<Rightarrow> Inl e
            | Inr cells \<Rightarrow> Inr (valueToString ops (row ! ci) # cells)))"

text \<open>
  The rendered cells of the selected rows, in the order of \<^verbatim>\<open>row_indices\<close>; an index that is
  not below \<^verbatim>\<open>rows.size()\<close> is passed over, as both loops over \<^verbatim>\<open>row_indices\<close> do.
\<close>

fun render_rows ::
  "'d double_ops \<Rightarrow> 'd Table \<Rightarrow> nat list \<Rightarrow> nat list \<Rightarrow> error + string list list" where
  "render_rows ops t col_indices [] = Inr []"
| "render_rows ops t col_indices (row_idx # rest) =
     (if row_idx < length (rows t)
      then (case render_cells ops (rows t ! row_idx) col_indices of
              Inl e \<Rightarrow> Inl e
            | Inr cells \<Rightarrow>
                (case render_rows ops t col_indices rest of
                   Inl e \<Rightarrow> Inl e
                 | Inr others \<Rightarrow> Inr (cells # others)))
      else render_rows ops t col_indices rest)"

definition rule_line :: "nat list \<Rightarrow> string" where
  "rule_line widths = ''+'' @ concat (map (\<lambda>width. replicate (width + 2) CHR ''-'' @ ''+'') widths)"

definition cells_line :: "nat list \<Rightarrow> string list \<Rightarrow> string" where
  "cells_line widths cells =
     ''|'' @ concat (map (\<lambda>(width, cell). '' '' @ pad_left_aligned width cell @ '' |'') (zip widths cells))"

text \<open>
  \<^verbatim>\<open>Table::printRows\<close>: the lines written to \<^verbatim>\<open>std::cout\<close>. The width of column \<^verbatim>\<open>i\<close> is the
  greatest of the header's length, the lengths of the cells of that column and 8. The code
  renders each cell twice, once to measure and once to print; the model renders it once.
\<close>

definition printRows ::
  "'d double_ops \<Rightarrow> 'd Table \<Rightarrow> nat list \<Rightarrow> string list \<Rightarrow> error + string list" where
  "printRows ops t row_indices selected_columns =
     (let selected =
            (if selected_columns = []
             then zip [0 ..< length (columns t)] (map col_name (columns t))
             else named_columns t selected_columns);
          col_indices = map fst selected;
          headers = map snd selected
      in case render_rows ops t col_indices row_indices of
           Inl e \<Rightarrow> Inl e
         | Inr rendered \<Rightarrow>
             (let widths =
                    map (\<lambda>i. max (fold (\<lambda>cells max_width. max max_width (length (cells ! i)))
                                     rendered (length (headers ! i))) 8)
                        [0 ..< length headers]
              in Inr ([rule_line widths, cells_line widths headers, rule_line widths] @
                      map (cells_line widths) rendered @
                      [rule_line widths,
                       ''('' @ show_nat (length row_indices) @ '' rows)''])))"

subsection \<open>DatabaseEngine\<close>

text \<open>
  \<^verbatim>\<open>std::unordered_map<std::string, std::unique_ptr<Table>> tables\<close> as an association
  list: the order of the list stands for the unspecified order in which the map is
  iterated. A \<^verbatim>\<open>Table*\<close> obtained from \<^verbatim>\<open>getTable\<close> and written through is modelled by
  storing the changed table back under its name.
\<close>

record 'd DatabaseEngine =
  tables :: "(string \<times> 'd Table) list"

definition new_DatabaseEngine :: "'d DatabaseEngine" where
  "new_DatabaseEngine = \<lparr>tables = []\<rparr>"

definition hasTable :: "'d DatabaseEngine \<Rightarrow> string \<Rightarrow> bool" where
  "hasTable e name = (map_of (tables e) name \<noteq> None)"

definition not_found :: "string \<Rightarrow> error" where
  "not_found name = RuntimeError (''Table '' @ quoted name @ '' not found'')"

definition createTable :: "'d DatabaseEngine \<Rightarrow> string \<Rightarrow> error option \<times> 'd DatabaseEngine" where
  "createTable e name =
     (if hasTable e name
      then (Some (RuntimeError (''Table '' @ quoted name @ '' already exists'')), e)
      else (None, e\<lparr>tables := AList.update name (new_Table name) (tables e)\<rparr>))"

definition getTable :: "'d DatabaseEngine \<Rightarrow> string \<Rightarrow> error + 'd Table" where
  "getTable e name =
     (case map_of (tables e) name of
        None \<Rightarrow> Inl (not_found name)
      | Some t \<Rightarrow> Inr t)"

definition dropTable :: "'d DatabaseEngine \<Rightarrow> string \<Rightarrow> error option \<times> 'd DatabaseEngine" where
  "dropTable e name =
     (if \<not> hasTable e name then (Some (not_found name), e)
      else (None, e\<lparr>tables := AList.delete name (tables e)\<rparr>))"

text \<open>
  \<^verbatim>\<open>listTables\<close> collects the keys in iteration order and sorts them with \<^verbatim>\<open>std::sort\<close>
  under \<^verbatim>\<open>operator<\<close> of \<^verbatim>\<open>std::string\<close>, the lexicographic order of the bytes, which is
  the order of \<^typ>\<open>string\<close> here.
\<close>

definition listTables :: "'d DatabaseEngine \<Rightarrow> string list" where
  "listTables e = sort (map fst (tables e))"

definition addColumn_engine ::
  "'d DatabaseEngine \<Rightarrow> string \<Rightarrow> string \<Rightarrow> string \<Rightarrow> error option \<times> 'd DatabaseEngine" where
  "addColumn_engine e name column_name type =
     (case getTable e name of
        Inl err \<Rightarrow> (Some err, e)
      | Inr t \<Rightarrow>
          (None, e\<lparr>tables := AList.update name (addColumn t column_name type) (tables e)\<rparr>))"

definition insertInto ::
  "'d double_ops \<Rightarrow> 'd DatabaseEngine \<Rightarrow> string \<Rightarrow> string list \<Rightarrow> error option \<times> 'd DatabaseEngine" where
  "insertInto ops e name values =
     (case getTable e name of
        Inl err \<Rightarrow> (Some err, e)
      | Inr t \<Rightarrow>
          (case insertRow_strings ops t values of
             (err, t') \<Rightarrow> (err, e\<lparr>tables := AList.update name t' (tables e)\<rparr>)))"

text \<open>\<^verbatim>\<open>DatabaseEngine::select\<close>: the lines printed, or the exception.\<close>

definition select ::
  "'d double_ops \<Rightarrow> 'd DatabaseEngine \<Rightarrow> string \<Rightarrow> string list \<Rightarrow> string \<Rightarrow> error + string list" where
  "select ops e name cols where_clause =
     (case map_of (tables e) name of
        None \<Rightarrow> Inl (not_found name)
      | Some t \<Rightarrow>
          (case selectRows ops t where_clause of
             Inl err \<Rightarrow> Inl err
           | Inr row_indices \<Rightarrow> printRows ops t row_indices cols))"

text \<open>The line of one table in \<^verbatim>\<open>showTables\<close>; a name that \<^verbatim>\<open>find\<close> misses prints nothing.\<close>

definition showTables_line :: "string \<Rightarrow> nat \<Rightarrow> string" where
  "showTables_line name n =
     ''| '' @ pad_left_aligned 14 name @ '' | '' @ pad_right_aligned 5 (show_nat n) @ '' |''"

definition showTables_row :: "'d DatabaseEngine \<Rightarrow> string \<Rightarrow> string list" where
  "showTables_row e name =
     (case map_of (tables e) name of
        Some t \<Rightarrow> [showTables_line name (length (rows t))]
      | None \<Rightarrow> [])"

definition showTables :: "'d DatabaseEngine \<Rightarrow> string list" where
  "showTables e =
     [''Tables in database:'',
      ''+----------------+-------+'',
      ''| Table Name     | Rows  |'',
      ''+----------------+-------+''] @
     concat (map (showTables_row e) (listTables e)) @
     [''+----------------+-------+'',
      ''('' @ show_nat (length (tables e)) @ '' tables)'']"

definition describeTable_row :: "Column \<Rightarrow> string" where
  "describeTable_row column =
     ''| '' @ pad_left_aligned 14 (col_name column) @ '' | '' @
     pad_left_aligned 14 (col_type column) @ '' |''"

definition describeTable :: "'d DatabaseEngine \<Rightarrow> string \<Rightarrow> error + string list" where
  "describeTable e name =
     (case map_of (tables e) name of
        None \<Rightarrow> Inl (not_found name)
      | Some t \<Rightarrow>
          Inr ([''Table: '' @ name,
                ''+----------------+----------------+'',
                ''| Column Name    | Type           |'',
                ''+----------------+----------------+''] @
               map describeTable_row (columns t) @
               [''+----------------+----------------+'',
                ''('' @ show_nat (length (columns t)) @ '' columns, '' @
                  show_nat (length (rows t)) @ '' rows)'']))"

text \<open>A line on \<^verbatim>\<open>std::cout\<close> or on \<^verbatim>\<open>std::cerr\<close>.\<close>

datatype out_line = Cout string | Cerr string

text \<open>
  The loop \<^verbatim>\<open>for (const auto& col : parsed_query.columns) addColumn(...)\<close>; it stops at the
  first call that throws, with the columns added so far in place.
\<close>

fun add_columns ::
  "'d DatabaseEngine \<Rightarrow> string \<Rightarrow> Column list \<Rightarrow> error option \<times> 'd DatabaseEngine" where
  "add_columns e name [] = (None, e)"
| "add_columns e name (col # cols) =
     (case addColumn_engine e name (col_name col) (col_type col) of
        (Some err, e') \<Rightarrow> (Some err, e')
      | (None, e') \<Rightarrow> add_columns e' name cols)"

text \<open>
  The dispatch inside the \<^verbatim>\<open>try\<close> block of \<^verbatim>\<open>executeQuery\<close>, after parsing: the exception
  that leaves the block (if any), the engine and the lines written up to that point.
\<close>

definition dispatch ::
  "'d double_ops \<Rightarrow> 'd DatabaseEngine \<Rightarrow> ParsedQuery \<Rightarrow>
   error option \<times> 'd DatabaseEngine \<times> out_line list" where
  "dispatch ops e parsed_query =
     (if q_type parsed_query = CREATE_TABLE then
        (case createTable e (q_table_name parsed_query) of
           (Some err, e1) \<Rightarrow> (Some err, e1, [])
         | (None, e1) \<Rightarrow>
             (case add_columns e1 (q_table_name parsed_query) (q_columns parsed_query) of
                (Some err, e2) \<Rightarrow> (Some err, e2, [])
              | (None, e2) \<Rightarrow>
                  (None, e2, [Cout (''Table '' @ quoted (q_table_name parsed_query) @
                                    '' created successfully.'')])))
      else if q_type parsed_query = INSERT then
        (case insertInto ops e (q_table_name parsed_query) (q_values parsed_query) of
           (Some err, e1) \<Rightarrow> (Some err, e1, [])
         | (None, e1) \<Rightarrow> (None, e1, [Cout ''1 row inserted.'']))
      else if q_type parsed_query = SELECT then
        (case select ops e (q_table_name parsed_query) (q_selected_columns parsed_query)
                (q_where_clause parsed_query) of
           Inl err \<Rightarrow> (Some err, e, [])
         | Inr lines \<Rightarrow> (None, e, map Cout lines))
      else if q_type parsed_query = DROP_TABLE then
        (case dropTable e (q_table_name parsed_query) of
           (Some err, e1) \<Rightarrow> (Some err, e1, [])
         | (None, e1) \<Rightarrow>
             (None, e1, [Cout (''Table '' @ quoted (q_table_name parsed_query) @
                               '' dropped successfully.'')]))
      else if q_type parsed_query = SHOW_TABLES then (None, e, map Cout (showTables e))
      else if q_type parsed_query = DESCRIBE then
        (case describeTable e (q_table_name parsed_query) of
           Inl err \<Rightarrow> (Some err, e, [])
         | Inr lines \<Rightarrow> (None, e, map Cout lines))
      else (None, e, []))"

text \<open>
  \<^verbatim>\<open>catch (const std::exception& e) { std::cerr << "Error: " << e.what() << std::endl; }\<close>:
  an exception derived from \<^verbatim>\<open>std::exception\<close> is turned into a line on \<^verbatim>\<open>std::cerr\<close> and
  the call returns; anything else leaves the call.
\<close>

definition catch_std_exception ::
  "error option \<times> 'd DatabaseEngine \<times> out_line list \<Rightarrow>
   error option \<times> 'd DatabaseEngine \<times> out_line list" where
  "catch_std_exception r =
     (case r of
        (None, e, out) \<Rightarrow> (None, e, out)
      | (Some err, e, out) \<Rightarrow>
          if is_std_exception err then (None, e, out @ [Cerr (''Error: '' @ what err)])
          else (Some err, e, out))"

text \<open>
  \<^verbatim>\<open>DatabaseEngine::executeQuery\<close>: what leaves the call (\<open>None\<close> when it returns normally),
  the engine after the call, and the lines written.
\<close>

definition executeQuery ::
  "'d double_ops \<Rightarrow> 'd DatabaseEngine \<Rightarrow> string \<Rightarrow>
   error option \<times> 'd DatabaseEngine \<times> out_line list" where
  "executeQuery ops e query =
     catch_std_exception
       (case parse query of
          Inl err \<Rightarrow> (Some err, e, [])
        | Inr parsed_query \<Rightarrow> dispatch ops e parsed_query)"

text \<open>A session: the statements of a list executed in order on an engine.\<close>

fun execute_all ::
  "'d double_ops \<Rightarrow> 'd DatabaseEngine \<Rightarrow> string list \<Rightarrow>
   error option \<times> 'd DatabaseEngine \<times> out_line list list" where
  "execute_all ops e [] = (None, e, [])"
| "execute_all ops e (q # qs) =
     (case executeQuery ops e q of
        (Some err, e', out) \<Rightarrow> (Some err, e', [out])
      | (None, e', out) \<Rightarrow>
          (case execute_all ops e' qs of (r, e'', outs) \<Rightarrow> (r, e'', out # outs)))"

subsection \<open>An instance of the operations on doubles\<close>

text \<open>
  To run the model on concrete inputs: decimal fractions \<open>(m, k)\<close>, standing for
  \<open>m / 10^k\<close>, in place of binary doubles. It is not \<^verbatim>\<open>std::stod\<close>, \<^verbatim>\<open>std::to_string\<close> and
  the comparisons of IEEE doubles: it has no exponent or hexadecimal notation, no
  infinity, NaN or signed zero, no range error and no binary rounding. The general
  theorems hold for every record of operations and do not depend on it, and no
  example below evaluates it on a column declared \<^verbatim>\<open>double\<close>.
\<close>

definition decimal_stod :: "string \<Rightarrow> (int \<times> nat) stod_result" where
  "decimal_stod str =
     (let s1 = dropWhile isspace str;
          negative = (s1 \<noteq> [] \<and> hd s1 = CHR ''-'');
          s2 = (if s1 \<noteq> [] \<and> (hd s1 = CHR ''-'' \<or> hd s1 = CHR ''+'') then tl s1 else s1);
          whole = takeWhile isdigit s2;
          after = dropWhile isdigit s2;
          fraction = (if after \<noteq> [] \<and> hd after = CHR ''.'' then takeWhile isdigit (tl after) else [])
      in if whole = [] \<and> fraction = [] then NoConversion
         else Converted ((if negative then - 1 else 1) * digits_value 0 (whole @ fraction),
                         length fraction))"

definition decimal_to_string :: "int \<times> nat \<Rightarrow> string" where
  "decimal_to_string d =
     (case d of (m, k) \<Rightarrow>
        (let scaled = (2 * nat \<bar>m\<bar> * 10 ^ 6 + 10 ^ k) div (2 * 10 ^ k);
             digits = show_nat (scaled mod 10 ^ 6)
         in (if m < 0 then ''-'' else []) @ show_nat (scaled div 10 ^ 6) @ ''.'' @
            replicate (6 - length digits) CHR ''0'' @ digits))"

definition decimal_ops :: "(int \<times> nat) double_ops" where
  "decimal_ops =
     \<lparr>stod = decimal_stod,
      double_eq = (\<lambda>a b. fst a * 10 ^ snd b = fst b * 10 ^ snd a),
      double_less = (\<lambda>a b. fst a * 10 ^ snd b < fst b * 10 ^ snd a),
      double_to_string = decimal_to_string\<rparr>"

subsection \<open>Invariants and predicates of the statements proved\<close>

text \<open>
  The index map of a table agrees with its columns: a name is a key exactly when it is the
  name of a column, and the index stored for it is the position of a column of that name.
  The constructor establishes this and \<^verbatim>\<open>addColumn\<close>, the only writer of the two private
  members, keeps it.
\<close>

definition index_ok :: "'d Table \<Rightarrow> bool" where
  "index_ok t =
     (\<forall>n. case column_index_map t n of
            None \<Rightarrow> n \<notin> set (map col_name (columns t))
          | Some i \<Rightarrow> i < length (columns t) \<and> col_name (columns t ! i) = n)"

text \<open>Every stored row has as many values as the table has columns.\<close>

definition rows_fit :: "'d Table \<Rightarrow> bool" where
  "rows_fit t = list_all (\<lambda>row. length row = length (columns t)) (rows t)"

text \<open>
  The alternative held by a value is the one that \<^verbatim>\<open>parseValue\<close> produces for the declared
  type: \<^verbatim>\<open>int\<close>, \<^verbatim>\<open>double\<close> and \<^verbatim>\<open>bool\<close> for the types of those names, a string for any
  other declared type.
\<close>

fun kind_ok :: "'d Value \<Rightarrow> string \<Rightarrow> bool" where
  "kind_ok (VInt _) type = (type = ''int'')"
| "kind_ok (VDouble _) type = (type = ''double'')"
| "kind_ok (VBool _) type = (type = ''bool'')"
| "kind_ok (VString _) type = (type \<noteq> ''int'' \<and> type \<noteq> ''double'' \<and> type \<noteq> ''bool'')"

definition row_shape :: "Column list \<Rightarrow> 'd Row \<Rightarrow> bool" where
  "row_shape cols row = list_all2 (\<lambda>v c. kind_ok v (col_type c)) row cols"

definition rows_typed :: "'d Table \<Rightarrow> bool" where
  "rows_typed t = list_all (row_shape (columns t)) (rows t)"

definition table_ok :: "'d Table \<Rightarrow> bool" where
  "table_ok t = (index_ok t \<and> rows_fit t)"

text \<open>
  An engine whose registry has one entry per name (it is a map) and whose tables are
  consistent.
\<close>

definition engine_ok :: "'d DatabaseEngine \<Rightarrow> bool" where
  "engine_ok e = (distinct (map fst (tables e)) \<and> list_all (\<lambda>(n, t). table_ok t) (tables e))"

definition engine_typed :: "'d DatabaseEngine \<Rightarrow> bool" where
  "engine_typed e = list_all (\<lambda>(n, t). rows_typed t) (tables e)"

text \<open>
  The conversion of the text throws: \<^verbatim>\<open>std::stoi\<close> throws for a column declared \<^verbatim>\<open>int\<close>,
  \<^verbatim>\<open>std::stod\<close> throws for one declared \<^verbatim>\<open>double\<close>. This is the outcome of the library
  call, not a judgement of the text: \<^verbatim>\<open>std::stoi\<close> converts the longest numeric prefix, so
  it does not throw on \<^verbatim>\<open>12abc\<close> or \<^verbatim>\<open>1.9\<close>.
\<close>

definition conversion_throws :: "'d double_ops \<Rightarrow> string \<Rightarrow> string \<Rightarrow> bool" where
  "conversion_throws ops value_str type =
     ((type = ''int'' \<and> isl (stoi value_str)) \<or>
      (type = ''double'' \<and> (case stod ops value_str of Converted _ \<Rightarrow> False | _ \<Rightarrow> True)))"

text \<open>
  Following the specification's words for a column declared \<^verbatim>\<open>int\<close> (the text is "a
  base-10 integer", "a valid integer"): the whole text is an optional sign followed by
  one or more decimal digits.
\<close>

definition valid_integer_text :: "string \<Rightarrow> bool" where
  "valid_integer_text s =
     (let digits = (if s \<noteq> [] \<and> (hd s = CHR ''-'' \<or> hd s = CHR ''+'') then tl s else s)
      in digits \<noteq> [] \<and> list_all isdigit digits)"

text \<open>The characters the tokenizer means to set apart.\<close>

definition punct_free :: "string \<Rightarrow> bool" where
  "punct_free t = (set t \<inter> {CHR ''('', CHR '')'', CHR '',''} = {})"

text \<open>
  A fragment whose punctuation sits only at its ends: an opening parenthesis at most as
  first character, a closing parenthesis or a comma at most as last character.
\<close>

definition punct_at_ends :: "string \<Rightarrow> bool" where
  "punct_at_ends f =
     (CHR ''('' \<notin> set (tl f) \<and> CHR '')'' \<notin> set (butlast f) \<and> CHR '','' \<notin> set (butlast f))"

text \<open>
  A fragment of three or more characters that both opens with a parenthesis and ends in
  one of the three stripped characters.
\<close>

definition wrapped :: "string \<Rightarrow> bool" where
  "wrapped f =
     (3 \<le> length f \<and> hd f = CHR ''('' \<and>
      (last f = CHR '','' \<or> last f = CHR '';'' \<or> last f = CHR '')''))"

definition plain_fragments :: "string \<Rightarrow> bool" where
  "plain_fragments query = list_all (\<lambda>f. punct_at_ends f \<and> \<not> wrapped f) (extract_all query)"

text \<open>The statement is a \<^verbatim>\<open>CREATE TABLE\<close> of the given name.\<close>

definition creates :: "string \<Rightarrow> string \<Rightarrow> bool" where
  "creates query name =
     (case parse query of
        Inl _ \<Rightarrow> False
      | Inr parsed_query \<Rightarrow> q_type parsed_query = CREATE_TABLE \<and> q_table_name parsed_query = name)"

text \<open>
  The grammar \<^verbatim>\<open>CREATE TABLE name ( col1 type1 , col2 type2 ... )\<close> of the specification:
  the tokens of a list of declarations, a name and a type each, separated by commas. A
  name or type can be declared when it is not itself a comma or a closing parenthesis.
\<close>

fun declaration_tokens :: "(string \<times> string) list \<Rightarrow> string list" where
  "declaration_tokens [] = []"
| "declaration_tokens [(n, ty)] = [n, ty]"
| "declaration_tokens ((n, ty) # d # ds) = n # ty # '','' # declaration_tokens (d # ds)"

definition declarable :: "string \<times> string \<Rightarrow> bool" where
  "declarable d = (fst d \<noteq> '')'' \<and> fst d \<noteq> '','' \<and> snd d \<noteq> '')'' \<and> snd d \<noteq> '','')"

text \<open>The column that a declaration stands for: the type is stored in lower case.\<close>

definition declared_column :: "string \<times> string \<Rightarrow> Column" where
  "declared_column d = Column (fst d) (toLower (snd d))"

subsection \<open>Example states\<close>

text \<open>A table \<^verbatim>\<open>t\<close> with the columns \<^verbatim>\<open>a int\<close> and \<^verbatim>\<open>b string\<close> and no row.\<close>

definition example_table :: "(int \<times> nat) Table" where
  "example_table = addColumn (addColumn (new_Table ''t'') ''a'' ''int'') ''b'' ''string''"

text \<open>An engine with the one table \<^verbatim>\<open>t\<close> above.\<close>

definition example_engine :: "(int \<times> nat) DatabaseEngine" where
  "example_engine = \<lparr>tables = [(''t'', example_table)]\<rparr>"

text \<open>Two engines with the tables \<^verbatim>\<open>a\<close> and \<^verbatim>\<open>b\<close>, created in the two possible orders.\<close>

definition engine_ab :: "(int \<times> nat) DatabaseEngine" where
  "engine_ab = snd (createTable (snd (createTable new_DatabaseEngine ''a'')) ''b'')"

definition engine_ba :: "(int \<times> nat) DatabaseEngine" where
  "engine_ba = snd (createTable (snd (createTable new_DatabaseEngine ''b'')) ''a'')"

text \<open>
  The statements of the scenario with the table \<^verbatim>\<open>users\<close>, as written and with a blank
  after the opening parenthesis of each \<^verbatim>\<open>INSERT\<close>.
\<close>

definition users_statements :: "string list" where
  "users_statements =
     [''CREATE TABLE users (id int, name string, age int)'',
      ''INSERT INTO users VALUES (1, Alice, 30)'',
      ''INSERT INTO users VALUES (2, Bob, 25)'',
      ''SELECT name FROM users WHERE age > 26'']"

definition users_statements_spaced :: "string list" where
  "users_statements_spaced =
     [''CREATE TABLE users (id int, name string, age int)'',
      ''INSERT INTO users VALUES ( 1, Alice, 30)'',
      ''INSERT INTO users VALUES ( 2, Bob, 25)'',
      ''SELECT name FROM users WHERE age > 26'']"

text \<open>A session that creates the table \<^verbatim>\<open>t\<close> and inserts one row.\<close>

definition small_session :: "string list" where
  "small_session = [''CREATE TABLE t (a int, b string)'', ''INSERT INTO t VALUES ( 7, x)'']"

subsection \<open>Facts about extraction and the tokenizer\<close>

lemma split_ws_nonempty: "f \<in> set (split_ws cur s) \<Longrightarrow> f \<noteq> []"
  by (induction s arbitrary: cur) (auto split: if_splits)

lemma tokenize_token_plain:
  assumes "punct_at_ends f" and "\<not> wrapped f" and "t \<in> set (tokenize_token f)" and "1 < length t"
  shows "punct_free t"
proof (cases "f \<noteq> [] \<and> (last f = CHR '','' \<or> last f = CHR '';'' \<or> last f = CHR '')'')")
  case True
  with assms(3,4) have t: "t = butlast f"
    by (auto simp: tokenize_token_def Let_def split: if_splits)
  from True have f: "f = butlast f @ [last f]" by simp
  have len: "3 \<le> length f" using assms(4) t by simp
  with assms(2) True have "hd f \<noteq> CHR ''(''" by (auto simp: wrapped_def)
  moreover have "hd f = hd (butlast f)" using assms(4) t
    by (cases f) (auto split: if_splits)
  moreover have "set (butlast f) \<subseteq> insert (hd (butlast f)) (set (tl f))"
    using assms(4) t by (cases f) (auto dest: in_set_butlastD split: if_splits)
  ultimately have "CHR ''('' \<notin> set (butlast f)"
    using assms(1) by (auto simp: punct_at_ends_def)
  with assms(1) show ?thesis by (auto simp: punct_free_def punct_at_ends_def t)
next
  case False
  have nolast: "f \<noteq> [] \<Longrightarrow> CHR '')'' \<notin> set f \<and> CHR '','' \<notin> set f"
  proof -
    assume ne: "f \<noteq> []"
    then have "set f = insert (last f) (set (butlast f))"
      by (metis append_butlast_last_id list.simps(15) rotate1.simps(2) set_rotate1)
    with False ne assms(1) show ?thesis by (auto simp: punct_at_ends_def)
  qed
  show ?thesis
  proof (cases "f \<noteq> [] \<and> hd f = CHR ''(''")
    case True
    with False assms(3,4) have t: "t = tl f"
      by (auto simp: tokenize_token_def Let_def split: if_splits)
    have "set (tl f) \<subseteq> set f" by (cases f) auto
    with nolast True assms(1) show ?thesis
      by (auto simp: punct_free_def punct_at_ends_def t)
  next
    case nohd: False
    with False assms(3) have t: "t = f" and ne: "f \<noteq> []"
      by (auto simp: tokenize_token_def Let_def split: if_splits)
    have "set f = insert (hd f) (set (tl f))" using ne by (cases f) auto
    with nolast nohd ne assms(1) show ?thesis
      by (auto simp: punct_free_def punct_at_ends_def t)
  qed
qed

subsection \<open>Facts about conversion and insertion\<close>

lemma stoi_error_std: "stoi s = Inl e \<Longrightarrow> is_std_exception e"
  by (auto simp: stoi_def Let_def split: if_splits)

lemma parseValue_error_std: "parseValue ops v ty = Inl e \<Longrightarrow> is_std_exception e"
  by (auto simp: parseValue_def Let_def dest: stoi_error_std
           split: if_splits sum.splits stod_result.splits)

lemma parseValue_fails_iff: "isl (parseValue ops v ty) = conversion_throws ops v ty"
  by (auto simp: parseValue_def conversion_throws_def Let_def split: sum.splits stod_result.splits)

lemma parseValue_kind: "parseValue ops v ty = Inr x \<Longrightarrow> kind_ok x ty"
  by (auto simp: parseValue_def Let_def split: if_splits sum.splits stod_result.splits)

lemma convert_values_Inr:
  "length vs = length cs \<Longrightarrow>
   \<forall>i < length vs. \<not> conversion_throws ops (vs ! i) (col_type (cs ! i)) \<Longrightarrow>
   convert_values ops vs cs = Inr (map (\<lambda>(v, c). projr (parseValue ops v (col_type c))) (zip vs cs))"
proof (induction vs cs rule: list_induct2)
  case Nil
  then show ?case by simp
next
  case (Cons v vs c cs)
  from Cons.prems have "\<not> conversion_throws ops v (col_type c)" by auto
  then obtain x where x: "parseValue ops v (col_type c) = Inr x"
    using parseValue_fails_iff [of ops v "col_type c"] by (cases "parseValue ops v (col_type c)") auto
  from Cons.prems have "\<forall>i < length vs. \<not> conversion_throws ops (vs ! i) (col_type (cs ! i))"
    by auto
  with Cons.IH x show ?case by simp
qed

lemma convert_values_Inl:
  "length vs = length cs \<Longrightarrow>
   i < length vs \<Longrightarrow> conversion_throws ops (vs ! i) (col_type (cs ! i)) \<Longrightarrow>
   \<exists>err. convert_values ops vs cs = Inl err \<and> is_std_exception err"
proof (induction vs cs arbitrary: i rule: list_induct2)
  case Nil
  then show ?case by simp
next
  case (Cons v vs c cs)
  show ?case
  proof (cases "parseValue ops v (col_type c)")
    case (Inl e)
    then show ?thesis by (simp add: parseValue_error_std)
  next
    case (Inr x)
    with Cons.prems parseValue_fails_iff [of ops v "col_type c"] obtain j where "i = Suc j"
      by (cases i) auto
    with Cons.prems Cons.IH [of j] Inr show ?thesis by auto
  qed
qed

lemma convert_values_error_std:
  "convert_values ops vs cs = Inl err \<Longrightarrow> length vs = length cs \<Longrightarrow> is_std_exception err"
proof (induction ops vs cs rule: convert_values.induct)
  case (3 ops v vs c cs)
  then show ?case
    by (auto dest: parseValue_error_std split: sum.splits)
qed simp_all

lemma convert_values_shape:
  "convert_values ops vs cs = Inr row \<Longrightarrow> length vs = length cs \<Longrightarrow> row_shape cs row"
proof (induction ops vs cs arbitrary: row rule: convert_values.induct)
  case (3 ops v vs c cs)
  then show ?case
    by (auto simp: row_shape_def dest: parseValue_kind split: sum.splits)
qed (simp_all add: row_shape_def)

lemma row_shape_length: "row_shape cs row \<Longrightarrow> length row = length cs"
  by (simp add: row_shape_def list_all2_lengthD)

lemma example_table_fields:
  "columns example_table = [Column ''a'' ''int'', Column ''b'' ''string'']"
  "rows example_table = []"
  "column_index_map example_table = [''a'' \<mapsto> 0, ''b'' \<mapsto> 1]"
  by (simp_all add: example_table_def addColumn_def new_Table_def)

lemma stoi_7: "stoi ''7'' = Inr 7"
  by (simp add: stoi_def isspace_def isdigit_def less_eq_char_def)

lemma stoi_x: "stoi ''x'' = Inl (InvalidArgument ''stoi'')"
  by (simp add: stoi_def isspace_def isdigit_def less_eq_char_def)

text \<open>The conversion takes the longest numeric prefix and checks the range of \<^verbatim>\<open>int\<close>.\<close>

lemma stoi_examples:
  "stoi ''12abc'' = Inr 12"
  "stoi ''  -30'' = Inr (- 30)"
  "stoi ''2147483647'' = Inr 2147483647"
  "stoi ''2147483648'' = Inl (OutOfRange ''stoi'')"
  "stoi ''-2147483648'' = Inr (- 2147483648)"
  "stoi [] = Inl (InvalidArgument ''stoi'')"
  by code_simp+

text \<open>When \<^verbatim>\<open>std::stoi\<close> throws: no digit after the whitespace and sign, or a value out of range.\<close>

lemma stoi_throws_iff:
  "isl (stoi str) =
     (let s1 = dropWhile isspace str;
          s2 = (if s1 \<noteq> [] \<and> (hd s1 = CHR ''-'' \<or> hd s1 = CHR ''+'') then tl s1 else s1);
          ds = takeWhile isdigit s2;
          n = (if s1 \<noteq> [] \<and> hd s1 = CHR ''-'' then - digits_value 0 ds else digits_value 0 ds)
      in ds = [] \<or> n < - 2147483648 \<or> 2147483647 < n)"
  by (simp add: stoi_def Let_def)

subsection \<open>Facts about tables and conditions\<close>

lemma index_ok_new_Table: "index_ok (new_Table name)"
  by (simp add: index_ok_def new_Table_def)

lemma index_okD:
  assumes "index_ok t"
  shows "column_index_map t n = None \<Longrightarrow> n \<notin> set (map col_name (columns t))"
    and "column_index_map t n = Some i \<Longrightarrow> i < length (columns t) \<and> col_name (columns t ! i) = n"
  using assms unfolding index_ok_def by (auto dest: spec [of _ n])

lemma index_ok_addColumn:
  assumes "index_ok t"
  shows "index_ok (addColumn t name type)"
  unfolding index_ok_def
proof (intro allI)
  fix n
  show "case column_index_map (addColumn t name type) n of
          None \<Rightarrow> n \<notin> set (map col_name (columns (addColumn t name type)))
        | Some i \<Rightarrow> i < length (columns (addColumn t name type)) \<and>
                    col_name (columns (addColumn t name type) ! i) = n"
  proof (cases "n = name")
    case True
    then show ?thesis by (simp add: addColumn_def)
  next
    case False
    show ?thesis
    proof (cases "column_index_map t n")
      case None
      with index_okD(1) [OF assms None] False show ?thesis by (simp add: addColumn_def)
    next
      case (Some i)
      with index_okD(2) [OF assms Some] False show ?thesis
        by (simp add: addColumn_def nth_append)
    qed
  qed
qed

lemma hasColumn_iff:
  assumes "index_ok t"
  shows "hasColumn t n = (n \<in> set (map col_name (columns t)))"
proof (cases "column_index_map t n")
  case None
  with index_okD(1) [OF assms None] show ?thesis by (simp add: hasColumn_def)
next
  case (Some i)
  from index_okD(2) [OF assms Some] have "col_name (columns t ! i) \<in> set (map col_name (columns t))"
    by (metis length_map nth_map nth_mem)
  with index_okD(2) [OF assms Some] Some show ?thesis by (simp add: hasColumn_def)
qed

lemma index_ok_example_table: "index_ok example_table"
  by (simp add: example_table_def index_ok_addColumn index_ok_new_Table)

lemma select_from_all:
  "(\<And>r. r \<in> set rs \<Longrightarrow> w = [] \<or> evaluateCondition ops t r w = Inr True) \<Longrightarrow>
   select_from ops t w i rs = Inr [i ..< i + length rs]"
proof (induction rs arbitrary: i)
  case Nil
  then show ?case by simp
next
  case (Cons r rs)
  have "select_from ops t w (Suc i) rs = Inr [Suc i ..< Suc i + length rs]"
    using Cons.prems by (intro Cons.IH) auto
  moreover have "w = [] \<or> evaluateCondition ops t r w = Inr True"
    using Cons.prems by auto
  moreover have "[i ..< i + length (r # rs)] = i # [Suc i ..< Suc i + length rs]"
    using upt_conv_Cons [of i "Suc i + length rs"] by simp
  ultimately show ?case by auto
qed

lemma evaluateCondition_short:
  "length (extract_all condition) < 3 \<Longrightarrow> evaluateCondition ops t row condition = Inr True"
  by (auto simp: evaluateCondition_def split: list.splits)

lemma extract_all_ex1: "extract_all ''a >'' = [''a'', ''>'']"
  by (simp add: extract_all_def isspace_def)
lemma extract_all_ex2: "extract_all ''c = 1'' = [''c'', ''='', ''1'']"
  by (simp add: extract_all_def isspace_def)
lemma extract_all_ex3: "extract_all ''a ~ x'' = [''a'', ''~'', ''x'']"
  by (simp add: extract_all_def isspace_def)

lemma hasColumn_example_a: "hasColumn example_table ''a''"
  by (simp add: hasColumn_def example_table_fields)

lemma getColumnIndex_example_a: "getColumnIndex example_table ''a'' = Inr 0"
  by (simp add: getColumnIndex_def example_table_fields)

lemma parseValue_x_int: "parseValue decimal_ops ''x'' ''int'' = Inl (InvalidArgument ''stoi'')"
  by (simp add: parseValue_def stoi_x)

lemma extract_all_ex4: "extract_all ''a ~ 7'' = [''a'', ''~'', ''7'']"
  by (simp add: extract_all_def isspace_def)

subsection \<open>Facts about the registry\<close>

lemma hasTable_update:
  "hasTable (e\<lparr>tables := AList.update k v (tables e)\<rparr>) n = (n = k \<or> hasTable e n)"
  by (simp add: hasTable_def update_conv')

lemma hasTable_delete:
  "hasTable (e\<lparr>tables := AList.delete k (tables e)\<rparr>) n = (n \<noteq> k \<and> hasTable e n)"
  by (simp add: hasTable_def delete_conv')

lemma createTable_hasTable:
  "createTable e k = (r, e') \<Longrightarrow> hasTable e' n \<Longrightarrow> n = k \<or> hasTable e n"
  by (auto simp: createTable_def hasTable_update split: if_splits)

lemma addColumn_engine_hasTable:
  "addColumn_engine e k c ty = (r, e') \<Longrightarrow> hasTable e' n = hasTable e n"
  by (auto simp: addColumn_engine_def getTable_def hasTable_def update_conv'
           split: option.splits if_splits)

lemma add_columns_hasTable:
  "add_columns e k cols = (r, e') \<Longrightarrow> hasTable e' n = hasTable e n"
proof (induction cols arbitrary: e)
  case Nil
  then show ?case by simp
next
  case (Cons col cols)
  obtain r1 e1 where step: "addColumn_engine e k (col_name col) (col_type col) = (r1, e1)"
    by (cases "addColumn_engine e k (col_name col) (col_type col)")
  from addColumn_engine_hasTable [OF step] have same: "hasTable e1 n = hasTable e n" .
  show ?case
  proof (cases r1)
    case None
    with Cons.prems step have "add_columns e1 k cols = (r, e')" by simp
    from Cons.IH [OF this] same show ?thesis by simp
  next
    case (Some err)
    with Cons.prems step have "e' = e1" by simp
    with same show ?thesis by simp
  qed
qed

lemma insertInto_hasTable:
  "insertInto ops e k vs = (r, e') \<Longrightarrow> hasTable e' n = hasTable e n"
  by (auto simp: insertInto_def getTable_def hasTable_def update_conv'
           split: option.splits prod.splits if_splits)

lemma dropTable_hasTable:
  "dropTable e k = (r, e') \<Longrightarrow> hasTable e' n \<Longrightarrow> hasTable e n"
  by (auto simp: dropTable_def hasTable_delete split: if_splits)

lemma dispatch_keeps_absent:
  assumes "\<not> hasTable e n"
    and "\<not> (q_type pq = CREATE_TABLE \<and> q_table_name pq = n)"
    and "dispatch ops e pq = (r, e', out)"
  shows "\<not> hasTable e' n"
proof (cases "q_type pq")
  case CREATE_TABLE
  obtain r1 e1 where c: "createTable e (q_table_name pq) = (r1, e1)"
    by (cases "createTable e (q_table_name pq)")
  obtain r2 e2 where a: "add_columns e1 (q_table_name pq) (q_columns pq) = (r2, e2)"
    by (cases "add_columns e1 (q_table_name pq) (q_columns pq)")
  from createTable_hasTable [OF c] assms(1,2) CREATE_TABLE have n1: "\<not> hasTable e1 n" by auto
  with add_columns_hasTable [OF a] have n2: "\<not> hasTable e2 n" by simp
  from assms(3) CREATE_TABLE c a have "e' = e1 \<or> e' = e2"
    by (auto simp: dispatch_def split: option.splits)
  with n1 n2 show ?thesis by auto
next
  case INSERT
  obtain r1 e1 where i: "insertInto ops e (q_table_name pq) (q_values pq) = (r1, e1)"
    by (cases "insertInto ops e (q_table_name pq) (q_values pq)")
  from assms(3) INSERT i have "e' = e1" by (auto simp: dispatch_def split: option.splits)
  with insertInto_hasTable [OF i] assms(1) show ?thesis by simp
next
  case SELECT
  with assms(1,3) show ?thesis by (auto simp: dispatch_def split: sum.splits)
next
  case DROP_TABLE
  obtain r1 e1 where d: "dropTable e (q_table_name pq) = (r1, e1)"
    by (cases "dropTable e (q_table_name pq)")
  from assms(3) DROP_TABLE d have "e' = e1" by (auto simp: dispatch_def split: option.splits)
  with dropTable_hasTable [OF d] assms(1) show ?thesis by auto
next
  case SHOW_TABLES
  with assms(1,3) show ?thesis by (auto simp: dispatch_def)
next
  case DESCRIBE
  with assms(1,3) show ?thesis by (auto simp: dispatch_def split: sum.splits)
next
  case UNKNOWN
  with assms(1,3) show ?thesis by (auto simp: dispatch_def)
qed

lemma catch_std_exception_engine: "fst (snd (catch_std_exception r)) = fst (snd r)"
  by (auto simp: catch_std_exception_def split: prod.splits option.splits)

lemma executeQuery_keeps_absent:
  assumes "\<not> hasTable e n" and "\<not> creates q n" and "executeQuery ops e q = (r, e', out)"
  shows "\<not> hasTable e' n"
proof (cases "parse q")
  case (Inl err)
  with assms(3) have "e' = e"
    using catch_std_exception_engine [of "(Some err, e, [])"] by (simp add: executeQuery_def)
  with assms(1) show ?thesis by simp
next
  case (Inr pq)
  obtain r1 e1 out1 where d: "dispatch ops e pq = (r1, e1, out1)"
    by (cases "dispatch ops e pq")
  from assms(2) Inr have "\<not> (q_type pq = CREATE_TABLE \<and> q_table_name pq = n)"
    by (simp add: creates_def)
  from dispatch_keeps_absent [OF assms(1) this d] have "\<not> hasTable e1 n" .
  moreover from assms(3) Inr d have "e' = e1"
    using catch_std_exception_engine [of "(r1, e1, out1)"] by (simp add: executeQuery_def)
  ultimately show ?thesis by simp
qed

lemma execute_all_keeps_absent:
  "\<not> hasTable e n \<Longrightarrow> list_all (\<lambda>q. \<not> creates q n) qs \<Longrightarrow>
   execute_all ops e qs = (r, e', outs) \<Longrightarrow> \<not> hasTable e' n"
proof (induction qs arbitrary: e r outs)
  case Nil
  then show ?case by simp
next
  case (Cons q qs)
  obtain r1 e1 out1 where s: "executeQuery ops e q = (r1, e1, out1)"
    by (cases "executeQuery ops e q")
  from Cons.prems(2) have nq: "\<not> creates q n" and rest: "list_all (\<lambda>q. \<not> creates q n) qs"
    by simp_all
  from executeQuery_keeps_absent [OF Cons.prems(1) nq s] have a1: "\<not> hasTable e1 n" .
  show ?case
  proof (cases r1)
    case None
    obtain r2 e2 outs2 where t: "execute_all ops e1 qs = (r2, e2, outs2)"
      by (cases "execute_all ops e1 qs")
    with Cons.prems(3) s None have "e' = e2" by simp
    with t have "execute_all ops e1 qs = (r2, e', outs2)" by simp
    from Cons.IH [OF a1 rest this] show ?thesis .
  next
    case (Some err)
    with Cons.prems(3) s have "e' = e1" by simp
    with a1 show ?thesis by simp
  qed
qed

lemma absent_operations_fail:
  assumes "\<not> hasTable e n"
  shows "getTable e n = Inl (not_found n)"
    and "insertInto ops e n vs = (Some (not_found n), e)"
    and "select ops e n cols w = Inl (not_found n)"
    and "describeTable e n = Inl (not_found n)"
    and "dropTable e n = (Some (not_found n), e)"
  using assms
  by (simp_all add: hasTable_def getTable_def insertInto_def select_def describeTable_def
                    dropTable_def)

lemma dropTable_example_engine: "dropTable example_engine ''t'' = (None, new_DatabaseEngine)"
  by (simp add: dropTable_def example_engine_def hasTable_def new_DatabaseEngine_def)

lemma show_tables_creates_nothing: "\<not> creates ''SHOW TABLES'' ''t''"
  by (simp add: creates_def parse_def tokenize_def extract_all_def isspace_def tokenize_token_def
      toLower_def tolower_def less_eq_char_def new_ParsedQuery_def)

lemma showTables_new: "showTables (new_DatabaseEngine :: (int \<times> nat) DatabaseEngine) = 
    [''Tables in database:'',
      ''+----------------+-------+'',
      ''| Table Name     | Rows  |'',
      ''+----------------+-------+'', ''+----------------+-------+'', ''(0 tables)'']"
  by (simp add: showTables_def new_DatabaseEngine_def listTables_def show_nat.simps)

lemma parse_show_tables: "parse ''SHOW TABLES'' = Inr (new_ParsedQuery\<lparr>q_type := SHOW_TABLES\<rparr>)"
  by (simp add: creates_def parse_def tokenize_def extract_all_def isspace_def tokenize_token_def
      toLower_def tolower_def less_eq_char_def )

lemma execute_show_tables_new: "execute_all decimal_ops new_DatabaseEngine [''SHOW TABLES''] =
    (None, new_DatabaseEngine, [map Cout (showTables (new_DatabaseEngine :: (int \<times> nat) DatabaseEngine))])"
  by (simp add: executeQuery_def parse_show_tables dispatch_def catch_std_exception_def new_ParsedQuery_def)

subsection \<open>Facts about listing the tables\<close>

lemma registered_names: "{n. hasTable e n} = set (map fst (tables e))"
  by (auto simp: hasTable_def map_of_eq_None_iff)

lemma sort_distinct: "distinct xs \<Longrightarrow> sort xs = sorted_list_of_set (set xs)"
  by (simp add: sorted_list_of_set_sort_remdups distinct_remdups_id)

lemma concat_map_single: "(\<And>x. x \<in> set xs \<Longrightarrow> f x = [g x]) \<Longrightarrow> concat (map f xs) = map g xs"
  by (induction xs) simp_all

lemma showTables_rows:
  "concat (map (showTables_row e) (listTables e)) =
   map (\<lambda>n. showTables_line n (length (rows (the (map_of (tables e) n))))) (listTables e)"
proof -
  have "showTables_row e n = [showTables_line n (length (rows (the (map_of (tables e) n))))]"
    if "n \<in> set (listTables e)" for n
  proof -
    from that have "n \<in> set (map fst (tables e))" by (simp add: listTables_def)
    then have "n \<in> {n. hasTable e n}" by (simp only: registered_names)
    then have "hasTable e n" by simp
    then show ?thesis by (auto simp: showTables_row_def hasTable_def)
  qed
  then show ?thesis by (rule concat_map_single)
qed

lemma tables_engine_ab: "tables engine_ab = [(''a'', new_Table ''a''), (''b'', new_Table ''b'')]"
  by (simp add: engine_ab_def createTable_def hasTable_def new_DatabaseEngine_def)

lemma tables_engine_ba: "tables engine_ba = [(''b'', new_Table ''b''), (''a'', new_Table ''a'')]"
  by (simp add: engine_ba_def createTable_def hasTable_def new_DatabaseEngine_def)

lemma sort_b_a: "sort [''b'', ''a''] = [''a'', ''b'']"
  by (simp add: less_eq_char_def)

subsection \<open>Facts about creating and describing a table\<close>

lemma column_defs_comma: "ts \<noteq> [] \<Longrightarrow> column_defs ('','' # ts) = column_defs ts"
  by (cases ts) simp_all

lemma column_defs_close: "column_defs ('')'' # rest) = []"
  by (cases rest) simp_all

lemma declaration_tokens_nonempty: "declaration_tokens (d # ds) \<noteq> []"
  by (cases d; cases ds) simp_all

lemma column_defs_declarations:
  "list_all declarable ds \<Longrightarrow>
   column_defs (declaration_tokens ds @ '')'' # rest) = map declared_column ds"
proof (induction ds rule: declaration_tokens.induct)
  case 1
  show ?case by (simp add: column_defs_close)
next
  case (2 n ty)
  then show ?case by (simp add: declarable_def declared_column_def column_defs_close)
next
  case (3 n ty d ds)
  from "3.prems" have "declarable (n, ty)" and rest: "list_all declarable (d # ds)"
    by simp_all
  then have ok: "n \<noteq> '')''" "n \<noteq> '',''" "ty \<noteq> '')''" "ty \<noteq> '',''"
    by (simp_all add: declarable_def)
  have "column_defs (declaration_tokens ((n, ty) # d # ds) @ '')'' # rest) =
        Column n (toLower ty) # column_defs ('','' # (declaration_tokens (d # ds) @ '')'' # rest))"
    using ok by simp
  also have "column_defs ('','' # (declaration_tokens (d # ds) @ '')'' # rest)) =
             column_defs (declaration_tokens (d # ds) @ '')'' # rest)"
    by (rule column_defs_comma) simp
  also have "\<dots> = map declared_column (d # ds)" using rest by (rule "3.IH")
  finally show ?case by (simp add: declared_column_def)
qed

lemma add_columns_present:
  "map_of (tables e) name = Some t \<Longrightarrow>
   \<exists>t'. add_columns e name cols = (None, e\<lparr>tables := AList.update name t' (tables e)\<rparr>) \<and>
        columns t' = columns t @ cols \<and> rows t' = rows t \<and> (index_ok t \<longrightarrow> index_ok t')"
proof (induction cols arbitrary: e t)
  case Nil
  then have "e\<lparr>tables := AList.update name t (tables e)\<rparr> = e" by (simp add: update_triv)
  then show ?case by (intro exI [of _ t]) simp
next
  case (Cons col cols)
  let ?t1 = "addColumn t (col_name col) (col_type col)"
  let ?e1 = "e\<lparr>tables := AList.update name ?t1 (tables e)\<rparr>"
  have step: "addColumn_engine e name (col_name col) (col_type col) = (None, ?e1)"
    using Cons.prems by (simp add: addColumn_engine_def getTable_def)
  have "map_of (tables ?e1) name = Some ?t1" by (simp add: update_conv')
  from Cons.IH [OF this] obtain t' where
    t': "add_columns ?e1 name cols = (None, ?e1\<lparr>tables := AList.update name t' (tables ?e1)\<rparr>)"
    and c: "columns t' = columns ?t1 @ cols" and r: "rows t' = rows ?t1"
    and i: "index_ok ?t1 \<longrightarrow> index_ok t'"
    by blast
  have "?e1\<lparr>tables := AList.update name t' (tables ?e1)\<rparr> = e\<lparr>tables := AList.update name t' (tables e)\<rparr>"
    by simp
  moreover from i have "index_ok t \<longrightarrow> index_ok t'" by (simp add: index_ok_addColumn)
  moreover from c have "columns t' = columns t @ col # cols" by (simp add: addColumn_def)
  moreover from r have "rows t' = rows t" by (simp add: addColumn_def)
  ultimately show ?case using t' step by (intro exI [of _ t']) simp
qed

lemma parse_create_table:
  assumes "tokenize query = kw1 # kw2 # name # ''('' # declaration_tokens decls @ '')'' # rest"
    and "toLower kw1 = ''create''" and "toLower kw2 = ''table''"
    and "list_all declarable decls"
  shows "parse query =
           Inr (new_ParsedQuery\<lparr>q_type := CREATE_TABLE, q_table_name := name,
                                q_columns := map declared_column decls\<rparr>)"
  using assms
  by (simp add: parse_def parseCreateTable_def column_defs_declarations new_ParsedQuery_def)

lemma sub_parsers_keep_type:
  "parseCreateTable tokens q = Inr pq \<Longrightarrow> q_type pq = q_type q"
  "parseInsert tokens q = Inr pq \<Longrightarrow> q_type pq = q_type q"
  "parseSelect tokens q = Inr pq \<Longrightarrow> q_type pq = q_type q"
  "parseDropTable tokens q = Inr pq \<Longrightarrow> q_type pq = q_type q"
  "parseDescribe tokens q = Inr pq \<Longrightarrow> q_type pq = q_type q"
  by (auto simp: parseCreateTable_def parseInsert_def parseSelect_def parseDropTable_def
                 parseDescribe_def Let_def split: if_splits option.splits)

lemma parse_CREATE_TABLE_D:
  assumes "parse query = Inr pq" and "q_type pq = CREATE_TABLE"
  shows "tokenize query \<noteq> [] \<and> toLower (tokenize query ! 0) = ''create'' \<and>
         1 < length (tokenize query) \<and> toLower (tokenize query ! 1) = ''table'' \<and>
         parseCreateTable (tokenize query) (new_ParsedQuery\<lparr>q_type := CREATE_TABLE\<rparr>) = Inr pq"
  using assms
  by (auto simp: parse_def Let_def new_ParsedQuery_def split: if_splits
           dest: sub_parsers_keep_type)

lemma tokenize_create_users: "tokenize ''CREATE TABLE users (id int, name string, age int)'' =
   ''CREATE'' # ''TABLE'' # ''users'' # ''('' #
   declaration_tokens [(''id'', ''int''), (''name'', ''string''), (''age'', ''int'')] @ '')'' # []"
  by (simp add: tokenize_def extract_all_def isspace_def tokenize_token_def)

lemma toLower_examples: "toLower ''CREATE'' = ''create''" "toLower ''TABLE'' = ''table''"
  "toLower ''int'' = ''int''" "toLower ''string'' = ''string''"
  by (simp_all add: toLower_def tolower_def less_eq_char_def)

lemma describe_rows_users: "describeTable_row (Column ''id'' ''int'') = ''| id             | int            |''"
  "describeTable_row (Column ''name'' ''string'') = ''| name           | string         |''"
  "describeTable_row (Column ''age'' ''int'') = ''| age            | int            |''"
  "show_nat 0 = ''0''" "show_nat (Suc (Suc (Suc 0))) = ''3''"
  by code_simp+

subsection \<open>Invariants of tables and of the engine\<close>

lemma set_update_cases: "x \<in> set (AList.update k v al) \<Longrightarrow> x = (k, v) \<or> x \<in> set al"
  by (induction al) (auto split: if_splits)

lemma list_all_update: "list_all P al \<Longrightarrow> P (k, v) \<Longrightarrow> list_all P (AList.update k v al)"
  by (auto simp: list_all_iff dest: set_update_cases)

lemma list_all_delete: "list_all P al \<Longrightarrow> list_all P (AList.delete k al)"
  by (auto simp: list_all_iff AList.delete_eq)

lemma engine_ok_lookup: "engine_ok e \<Longrightarrow> map_of (tables e) n = Some t \<Longrightarrow> table_ok t"
  by (auto simp: engine_ok_def list_all_iff dest: map_of_SomeD)

lemma engine_typed_lookup: "engine_typed e \<Longrightarrow> map_of (tables e) n = Some t \<Longrightarrow> rows_typed t"
  by (auto simp: engine_typed_def list_all_iff dest: map_of_SomeD)

lemma engine_ok_update:
  "engine_ok e \<Longrightarrow> table_ok t \<Longrightarrow> engine_ok (e\<lparr>tables := AList.update n t (tables e)\<rparr>)"
  by (simp add: engine_ok_def distinct_update list_all_update)

lemma engine_typed_update:
  "engine_typed e \<Longrightarrow> rows_typed t \<Longrightarrow> engine_typed (e\<lparr>tables := AList.update n t (tables e)\<rparr>)"
  by (simp add: engine_typed_def list_all_update)

lemma engine_ok_delete: "engine_ok e \<Longrightarrow> engine_ok (e\<lparr>tables := AList.delete n (tables e)\<rparr>)"
  by (simp add: engine_ok_def distinct_delete list_all_delete)

lemma engine_typed_delete:
  "engine_typed e \<Longrightarrow> engine_typed (e\<lparr>tables := AList.delete n (tables e)\<rparr>)"
  by (simp add: engine_typed_def list_all_delete)

lemma engine_ok_new: "engine_ok new_DatabaseEngine" "engine_typed new_DatabaseEngine"
  by (simp_all add: engine_ok_def engine_typed_def new_DatabaseEngine_def)

lemma insertRow_strings_cases:
  assumes "insertRow_strings ops t vs = (r, t')"
  shows "(\<exists>err. r = Some err \<and> is_std_exception err \<and> t' = t) \<or>
         (\<exists>row. r = None \<and> t' = t\<lparr>rows := rows t @ [row]\<rparr> \<and> row_shape (columns t) row)"
proof (cases "length vs = length (columns t)")
  case False
  with assms show ?thesis by (auto simp: insertRow_strings_def)
next
  case True
  show ?thesis
  proof (cases "convert_values ops vs (columns t)")
    case (Inl err)
    with True assms convert_values_error_std [OF Inl True] show ?thesis
      by (auto simp: insertRow_strings_def)
  next
    case (Inr row)
    with True assms convert_values_shape [OF Inr True] show ?thesis
      by (auto simp: insertRow_strings_def)
  qed
qed

lemma index_ok_rows_update: "index_ok (t\<lparr>rows := rs\<rparr>) = index_ok t"
  by (simp add: index_ok_def cong: option.case_cong)

lemma insertRow_strings_ok:
  assumes "insertRow_strings ops t vs = (r, t')" and "table_ok t"
  shows "table_ok t'" and "rows_typed t \<Longrightarrow> rows_typed t'"
  using insertRow_strings_cases [OF assms(1)] assms(2)
  by (auto simp: table_ok_def index_ok_rows_update rows_fit_def rows_typed_def
           dest: row_shape_length)

lemma evaluateCondition_error_std:
  assumes "index_ok t" and "length row = length (columns t)"
    and "evaluateCondition ops t row c = Inl err"
  shows "is_std_exception err"
proof (cases "extract_all c")
  case Nil
  with assms(3) show ?thesis by (simp add: evaluateCondition_def)
next
  case (Cons a as)
  show ?thesis
  proof (cases "\<exists>op v rest. as = op # v # rest")
    case False
    with Cons assms(3) show ?thesis
      by (auto simp: evaluateCondition_def split: list.splits)
  next
    case True
    then obtain op v rest where as: "as = op # v # rest" by blast
    show ?thesis
    proof (cases "column_index_map t a")
      case None
      with Cons as assms(3) show ?thesis by (simp add: evaluateCondition_def hasColumn_def)
    next
      case (Some i)
      from index_okD(2) [OF assms(1) Some] assms(2) have "i < length (columns t)" "i < length row"
        by simp_all
      with Cons as Some assms(3) show ?thesis
        by (auto simp: evaluateCondition_def hasColumn_def getColumnIndex_def Let_def
                 dest: parseValue_error_std split: sum.splits if_splits)
    qed
  qed
qed

lemma select_from_error_std:
  "index_ok t \<Longrightarrow> list_all (\<lambda>r. length r = length (columns t)) rs \<Longrightarrow>
   select_from ops t w i rs = Inl err \<Longrightarrow> is_std_exception err"
proof (induction rs arbitrary: i)
  case Nil
  then show ?case by simp
next
  case (Cons r rs)
  then show ?case
    by (auto dest: evaluateCondition_error_std split: sum.splits if_splits)
qed

lemma render_cells_Inr:
  "list_all (\<lambda>ci. ci < length row) cis \<Longrightarrow> \<exists>cells. render_cells ops row cis = Inr cells"
  by (induction cis) auto

lemma render_rows_Inr:
  "rows_fit t \<Longrightarrow> list_all (\<lambda>ci. ci < length (columns t)) cis \<Longrightarrow>
   \<exists>rendered. render_rows ops t cis idxs = Inr rendered"
proof (induction idxs)
  case Nil
  then show ?case by simp
next
  case (Cons idx idxs)
  then obtain others where o: "render_rows ops t cis idxs = Inr others" by auto
  show ?case
  proof (cases "idx < length (rows t)")
    case False
    with o show ?thesis by simp
  next
    case True
    with Cons.prems(1) have "length (rows t ! idx) = length (columns t)"
      by (simp add: rows_fit_def list_all_length)
    with Cons.prems(2) have "list_all (\<lambda>ci. ci < length (rows t ! idx)) cis" by simp
    from render_cells_Inr [OF this] obtain cells where "render_cells ops (rows t ! idx) cis = Inr cells"
      by blast
    with True o show ?thesis by simp
  qed
qed

lemma named_columns_in_range:
  "index_ok t \<Longrightarrow> list_all (\<lambda>ci. ci < length (columns t)) (map fst (named_columns t names))"
proof (induction names)
  case Nil
  then show ?case by simp
next
  case (Cons n names)
  then show ?case by (auto split: option.splits dest: index_okD(2))
qed

lemma printRows_Inr:
  assumes "table_ok t"
  shows "\<exists>lines. printRows ops t idxs cols = Inr lines"
proof -
  let ?selected = "if cols = [] then zip [0 ..< length (columns t)] (map col_name (columns t))
                   else named_columns t cols"
  have "list_all (\<lambda>ci. ci < length (columns t)) (map fst ?selected)"
    using assms named_columns_in_range [of t cols]
    by (auto simp: table_ok_def list_all_iff dest: set_zip_leftD)
  from render_rows_Inr [OF _ this, of ops idxs] assms obtain rendered where
    "render_rows ops t (map fst ?selected) idxs = Inr rendered"
    by (auto simp: table_ok_def)
  then show ?thesis by (simp add: printRows_def Let_def)
qed

lemma select_error_std:
  assumes "engine_ok e" and "select ops e n cols w = Inl err"
  shows "is_std_exception err"
proof (cases "map_of (tables e) n")
  case None
  with assms(2) show ?thesis by (auto simp: select_def not_found_def)
next
  case (Some t)
  from engine_ok_lookup [OF assms(1) Some] have ok: "table_ok t" .
  show ?thesis
  proof (cases "selectRows ops t w")
    case (Inl e1)
    with ok select_from_error_std [of t "rows t" ops w 0 e1] Some assms(2) show ?thesis
      by (simp add: select_def selectRows_def table_ok_def rows_fit_def)
  next
    case (Inr idxs)
    with printRows_Inr [OF ok, of ops idxs cols] Some assms(2) show ?thesis
      by (auto simp: select_def)
  qed
qed

lemma insertInto_ok:
  assumes "engine_ok e" and "insertInto ops e n vs = (r, e')"
  shows "engine_ok e' \<and> (engine_typed e \<longrightarrow> engine_typed e') \<and>
         (\<forall>err. r = Some err \<longrightarrow> is_std_exception err)"
proof (cases "map_of (tables e) n")
  case None
  with assms show ?thesis by (auto simp: insertInto_def getTable_def not_found_def)
next
  case (Some t)
  obtain r1 t' where i: "insertRow_strings ops t vs = (r1, t')"
    by (cases "insertRow_strings ops t vs")
  from assms(2) Some i have e': "e' = e\<lparr>tables := AList.update n t' (tables e)\<rparr>" and r: "r = r1"
    by (simp_all add: insertInto_def getTable_def)
  from engine_ok_lookup [OF assms(1) Some] have ok: "table_ok t" .
  from insertRow_strings_ok(1) [OF i ok] assms(1) e' have "engine_ok e'"
    by (simp add: engine_ok_update)
  moreover have "engine_typed e'" if ty: "engine_typed e"
    using insertRow_strings_ok(2) [OF i ok] engine_typed_lookup [OF ty Some] ty e'
    by (simp add: engine_typed_update)
  moreover have "is_std_exception err" if "r = Some err" for err
    using insertRow_strings_cases [OF i] that r by auto
  ultimately show ?thesis by blast
qed

lemma parse_error_std: "parse q = Inl err \<Longrightarrow> is_std_exception err"
  by (auto simp: parse_def parseCreateTable_def parseInsert_def parseSelect_def parseDropTable_def
                 parseDescribe_def Let_def split: if_splits option.splits)

lemma dispatch_ok:
  assumes "engine_ok e" and "dispatch ops e pq = (r, e', out)"
  shows "engine_ok e' \<and> (engine_typed e \<longrightarrow> engine_typed e') \<and>
         (\<forall>err. r = Some err \<longrightarrow> is_std_exception err)"
proof (cases "q_type pq")
  case CREATE_TABLE
  let ?name = "q_table_name pq"
  show ?thesis
  proof (cases "hasTable e ?name")
    case True
    with assms CREATE_TABLE show ?thesis by (auto simp: dispatch_def createTable_def)
  next
    case False
    let ?e1 = "e\<lparr>tables := AList.update ?name (new_Table ?name) (tables e)\<rparr>"
    have c: "createTable e ?name = (None, ?e1)" using False by (simp add: createTable_def)
    have "map_of (tables ?e1) ?name = Some (new_Table ?name)" by (simp add: update_conv')
    from add_columns_present [OF this, of "q_columns pq"] obtain t where
      a: "add_columns ?e1 ?name (q_columns pq) =
            (None, ?e1\<lparr>tables := AList.update ?name t (tables ?e1)\<rparr>)"
      and no_rows: "rows t = []" and idx: "index_ok t"
      by (auto simp: new_Table_def index_ok_def)
    from assms(2) CREATE_TABLE c a
    have e': "e' = e\<lparr>tables := AList.update ?name t (tables e)\<rparr>" and r: "r = None"
      by (simp_all add: dispatch_def)
    from no_rows idx have "table_ok t" "rows_typed t"
      by (simp_all add: table_ok_def rows_fit_def rows_typed_def)
    with assms(1) e' r show ?thesis by (simp add: engine_ok_update engine_typed_update)
  qed
next
  case INSERT
  obtain r1 e1 where i: "insertInto ops e (q_table_name pq) (q_values pq) = (r1, e1)"
    by (cases "insertInto ops e (q_table_name pq) (q_values pq)")
  from assms(2) INSERT i have "e' = e1" "r = r1"
    by (auto simp: dispatch_def split: option.splits)
  with insertInto_ok [OF assms(1) i] show ?thesis by simp
next
  case SELECT
  with assms select_error_std [OF assms(1)] show ?thesis
    by (auto simp: dispatch_def split: sum.splits)
next
  case DROP_TABLE
  with assms show ?thesis
    by (auto simp: dispatch_def dropTable_def not_found_def engine_ok_delete engine_typed_delete
             split: if_splits)
next
  case SHOW_TABLES
  with assms show ?thesis by (auto simp: dispatch_def)
next
  case DESCRIBE
  with assms show ?thesis
    by (auto simp: dispatch_def describeTable_def not_found_def split: sum.splits option.splits)
next
  case UNKNOWN
  with assms show ?thesis by (auto simp: dispatch_def)
qed

lemma executeQuery_ok:
  assumes "engine_ok e" and "executeQuery ops e q = (r, e', out)"
  shows "r = None \<and> engine_ok e' \<and> (engine_typed e \<longrightarrow> engine_typed e')"
proof (cases "parse q")
  case (Inl err)
  with assms parse_error_std [OF Inl] show ?thesis
    by (auto simp: executeQuery_def catch_std_exception_def)
next
  case (Inr pq)
  obtain r1 e1 out1 where d: "dispatch ops e pq = (r1, e1, out1)"
    by (cases "dispatch ops e pq")
  from dispatch_ok [OF assms(1) d] assms(2) Inr d show ?thesis
    by (auto simp: executeQuery_def catch_std_exception_def split: option.splits if_splits)
qed

lemma execute_all_ok:
  "engine_ok e \<Longrightarrow> execute_all ops e qs = (r, e', outs) \<Longrightarrow>
   r = None \<and> engine_ok e' \<and> (engine_typed e \<longrightarrow> engine_typed e')"
proof (induction qs arbitrary: e r e' outs)
  case Nil
  then show ?case by simp
next
  case (Cons q qs)
  obtain r1 e1 out1 where s: "executeQuery ops e q = (r1, e1, out1)"
    by (cases "executeQuery ops e q")
  from executeQuery_ok [OF Cons.prems(1) s]
  have r1: "r1 = None" and ok1: "engine_ok e1" and ty1: "engine_typed e \<longrightarrow> engine_typed e1"
    by simp_all
  obtain r2 e2 outs2 where t: "execute_all ops e1 qs = (r2, e2, outs2)"
    by (cases "execute_all ops e1 qs")
  from Cons.IH [OF ok1 t] have "r2 = None \<and> engine_ok e2 \<and> (engine_typed e1 \<longrightarrow> engine_typed e2)" .
  moreover from Cons.prems(2) s r1 t have "r = r2" "e' = e2" by simp_all
  ultimately show ?case using ty1 by simp
qed

subsection \<open>Concrete sessions\<close>

lemma users_scenario_spaced:
  "snd (snd (execute_all decimal_ops new_DatabaseEngine users_statements_spaced)) =
     [[Cout (''Table '' @ quoted ''users'' @ '' created successfully.'')],
      [Cout ''1 row inserted.''],
      [Cout ''1 row inserted.''],
      [Cout ''+----------+'',
       Cout ''| name     |'',
       Cout ''+----------+'',
       Cout ''| Alice    |'',
       Cout ''+----------+'',
       Cout ''(1 rows)'']]"
  by code_simp

lemma small_session_result:
  "(case map_of (tables (fst (snd (execute_all decimal_ops new_DatabaseEngine small_session)))) ''t'' of
      None \<Rightarrow> False
    | Some t \<Rightarrow> columns t = [Column ''a'' ''int'', Column ''b'' ''string''] \<and>
                rows t = [[VInt 7, VString ''x'']])"
  by code_simp

lemma table_ok_example_table: "table_ok example_table"
  by (simp add: table_ok_def index_ok_example_table rows_fit_def example_table_fields)

lemma engine_ok_example_engine: "engine_ok example_engine"
  by (simp add: engine_ok_def example_engine_def table_ok_example_table)

lemma parse_drop_table_alone: "parse ''DROP TABLE'' = Inl (RuntimeError ''Invalid DROP TABLE syntax'')"
  by code_simp

lemma execute_bad_insert:
  "fst (executeQuery decimal_ops example_engine ''INSERT INTO t VALUES ( x, y)'') = None \<and>
   snd (snd (executeQuery decimal_ops example_engine ''INSERT INTO t VALUES ( x, y)'')) =
     [Cerr ''Error: stoi'']"
  by code_simp

section \<open>Claims\<close>

text \<open>
  C1. The scenario \<^verbatim>\<open>CREATE TABLE users (id int, name string, age int)\<close>,
  \<^verbatim>\<open>INSERT INTO users VALUES (1, Alice, 30)\<close>, \<^verbatim>\<open>INSERT INTO users VALUES (2, Bob, 25)\<close>,
  \<^verbatim>\<open>SELECT name FROM users WHERE age > 26\<close> on a fresh engine is claimed to succeed at
  every step and to select the one row \<^verbatim>\<open>Alice\<close>. The code does otherwise: the tokenizer
  leaves the opening parenthesis attached in the token \<^verbatim>\<open>(1\<close>, both \<^verbatim>\<open>INSERT\<close>
  statements are rejected with \<^verbatim>\<open>Missing values in INSERT statement\<close>, and the \<^verbatim>\<open>SELECT\<close>
  prints the header and no row. (With a blank after the parenthesis the scenario does
  select \<^verbatim>\<open>Alice\<close>: lemma \<open>users_scenario_spaced\<close>.)
\<close>

theorem users_scenario_inserts_rejected:
  "tokenize ''INSERT INTO users VALUES (1, Alice, 30)'' =
     [''INSERT'', ''INTO'', ''users'', ''VALUES'', ''(1'', '','', ''Alice'', '','', ''30'', '')''] \<and>
   snd (snd (execute_all decimal_ops new_DatabaseEngine users_statements)) =
     [[Cout (''Table '' @ quoted ''users'' @ '' created successfully.'')],
      [Cerr ''Error: Missing values in INSERT statement''],
      [Cerr ''Error: Missing values in INSERT statement''],
      [Cout ''+----------+'',
       Cout ''| name     |'',
       Cout ''+----------+'',
       Cout ''+----------+'',
       Cout ''(0 rows)'']]"
  by code_simp

text \<open>
  C2 (as amended). The overload of \<^verbatim>\<open>insertRow\<close> that takes a row rejects a row whose
  length differs from the number of columns, appending nothing, and appends any row of
  the right length, whatever the kinds of its values. The overload that takes strings
  either fails and leaves the table as it was, or appends one row that has the shape of
  the schema: as many values as columns, each of the kind that the declared type of its
  column converts to. Executing statements keeps the engine consistent and typed, so
  every row of every table of a state reached from the empty engine has the shape of
  its table's schema.
\<close>

theorem rows_keep_shape:
  "insertRow t row =
     (if length row \<noteq> length (columns t)
      then (Some (RuntimeError (''Row size doesn'' @ [CHR 0x27] @ ''t match number of columns'')), t)
      else (None, t\<lparr>rows := rows t @ [row]\<rparr>)) \<and>
   (insertRow_strings ops t vs = (r, t') \<longrightarrow>
      (r \<noteq> None \<and> t' = t) \<or>
      (\<exists>row'. r = None \<and> t' = t\<lparr>rows := rows t @ [row']\<rparr> \<and> row_shape (columns t) row')) \<and>
   (engine_ok e \<and> engine_typed e \<and> execute_all ops e qs = (r2, e2, outs2) \<longrightarrow>
      engine_ok e2 \<and> engine_typed e2) \<and>
   (execute_all ops new_DatabaseEngine qs = (r3, e3, outs3) \<and>
    map_of (tables e3) name = Some t3 \<and> row3 \<in> set (rows t3) \<longrightarrow>
      row_shape (columns t3) row3)"
proof (intro conjI impI)
  show "insertRow t row =
     (if length row \<noteq> length (columns t)
      then (Some (RuntimeError (''Row size doesn'' @ [CHR 0x27] @ ''t match number of columns'')), t)
      else (None, t\<lparr>rows := rows t @ [row]\<rparr>))"
    by (simp add: insertRow_def)
next
  assume "insertRow_strings ops t vs = (r, t')"
  from insertRow_strings_cases [OF this]
  show "(r \<noteq> None \<and> t' = t) \<or>
      (\<exists>row'. r = None \<and> t' = t\<lparr>rows := rows t @ [row']\<rparr> \<and> row_shape (columns t) row')"
    by auto
next
  assume a: "engine_ok e \<and> engine_typed e \<and> execute_all ops e qs = (r2, e2, outs2)"
  with execute_all_ok [of e ops qs r2 e2 outs2]
  show "engine_ok e2" and "engine_typed e2" by simp_all
next
  assume a: "execute_all ops new_DatabaseEngine qs = (r3, e3, outs3) \<and>
    map_of (tables e3) name = Some t3 \<and> row3 \<in> set (rows t3)"
  with execute_all_ok [OF engine_ok_new(1), of ops qs r3 e3 outs3]
  have "engine_typed e3" by (simp add: engine_ok_new)
  with a have "rows_typed t3" by (blast intro: engine_typed_lookup)
  with a show "row_shape (columns t3) row3" by (simp add: rows_typed_def list_all_iff)
qed

theorem rows_keep_shape_witness:
  "\<exists>t. map_of (tables (fst (snd (execute_all decimal_ops new_DatabaseEngine small_session)))) ''t'' = Some t \<and>
       rows t = [[VInt 7, VString ''x'']] \<and>
       row_shape (columns t) [VInt 7 :: (int \<times> nat) Value, VString ''x''] \<and>
       insertRow_strings decimal_ops example_table [''x'', ''7''] =
         (Some (InvalidArgument ''stoi''), example_table)"
proof -
  let ?X = "execute_all decimal_ops new_DatabaseEngine small_session"
  from small_session_result obtain t where
    t: "map_of (tables (fst (snd ?X))) ''t'' = Some t" and r: "rows t = [[VInt 7, VString ''x'']]"
    by (auto split: option.splits)
  have x: "?X = (fst ?X, fst (snd ?X), snd (snd ?X))" by simp
  have i: "insertRow_strings decimal_ops example_table [''x'', ''7''] =
         (Some (InvalidArgument ''stoi''), example_table)"
    by (simp add: insertRow_strings_def example_table_fields parseValue_def stoi_x)
  from rows_keep_shape [of example_table "[]" decimal_ops "[''x'', ''7'']"
         "Some (InvalidArgument ''stoi'')" example_table new_DatabaseEngine small_session
         "fst ?X" "fst (snd ?X)" "snd (snd ?X)" "fst ?X" "fst (snd ?X)" "snd (snd ?X)" "''t''" t
         "[VInt 7, VString ''x'']"]
       x t r i
  have "row_shape (columns t) [VInt 7 :: (int \<times> nat) Value, VString ''x'']"
    by (simp add: engine_ok_new)
  with t r i show ?thesis by blast
qed

text \<open>
  C2 (as stated) fails: the overload that takes a row checks the length only, so it
  stores two strings in the table whose first column is declared \<^verbatim>\<open>int\<close>.
\<close>

theorem insertRow_ignores_kinds_counterexample:
  "insertRow example_table [VString ''x'', VString ''y''] =
     (None, example_table\<lparr>rows := [[VString ''x'', VString ''y'']]\<rparr>) \<and>
   col_type (columns example_table ! 0) = ''int'' \<and>
   \<not> kind_ok (VString ''x'' :: (int \<times> nat) Value) ''int'' \<and>
   \<not> row_shape (columns example_table) [VString ''x'' :: (int \<times> nat) Value, VString ''y'']"
  by (simp add: insertRow_def example_table_fields row_shape_def)

text \<open>
  C3 (as amended). For every input string in which each whitespace-delimited fragment has
  an opening parenthesis at most as its first character and a closing parenthesis or comma
  at most as its last character, and in which no fragment of three or more characters both
  opens with a parenthesis and ends in a comma, semicolon or closing parenthesis, no token
  of length greater than one produced by the tokenizer contains a parenthesis or a comma.
\<close>

theorem tokenize_isolates_end_punctuation:
  assumes "plain_fragments query" and "t \<in> set (tokenize query)" and "1 < length t"
  shows "punct_free t"
proof -
  from assms(2) obtain f where f: "f \<in> set (extract_all query)" and t: "t \<in> set (tokenize_token f)"
    by (auto simp: tokenize_def)
  from assms(1) f have "punct_at_ends f \<and> \<not> wrapped f"
    by (auto simp: plain_fragments_def list_all_iff)
  with t assms(3) show ?thesis by (blast intro: tokenize_token_plain)
qed

theorem tokenize_isolates_end_punctuation_witness:
  "plain_fragments ''CREATE TABLE users (id int, name string)'' \<and>
   ''users'' \<in> set (tokenize ''CREATE TABLE users (id int, name string)'') \<and>
   1 < length ''users'' \<and> punct_free ''users''"
proof -
  have a: "plain_fragments ''CREATE TABLE users (id int, name string)''"
    by (simp add: plain_fragments_def extract_all_def isspace_def punct_at_ends_def wrapped_def)
  have b: "''users'' \<in> set (tokenize ''CREATE TABLE users (id int, name string)'')"
    by (simp add: tokenize_def extract_all_def isspace_def tokenize_token_def)
  have c: "1 < length ''users''" by simp
  from tokenize_isolates_end_punctuation [OF a b c] a b c show ?thesis by simp
qed

text \<open>
  C3 (as stated) fails: a comma inside a fragment is not split off, so the fragment
  \<^verbatim>\<open>a,b\<close> is emitted whole, a token of three characters that contains a comma.
\<close>

theorem tokenize_embedded_comma_counterexample:
  "tokenize ''a,b'' = [''a,b''] \<and> 1 < length ''a,b'' \<and> \<not> punct_free ''a,b''"
  by (simp add: tokenize_def extract_all_def isspace_def tokenize_token_def punct_free_def)

text \<open>
  C4 (as amended). \<^verbatim>\<open>insertRow\<close> on a vector of strings: when the number of strings
  differs from the number of columns, or the conversion of the string at some position
  throws under a declared type \<^verbatim>\<open>int\<close> or \<^verbatim>\<open>double\<close> (\<^verbatim>\<open>std::stoi\<close>, \<^verbatim>\<open>std::stod\<close> find no
  number at the start of the text, or a value out of range), an exception is raised and
  the table is left exactly as it was; otherwise exactly one row, the converted values
  in order, is appended at the end. A text that starts with a number and goes on with
  other characters converts to that number.
\<close>

theorem insertRow_strings_all_or_nothing:
  "(if length values \<noteq> length (columns t) \<or>
      (\<exists>i < length values. conversion_throws ops (values ! i) (col_type (columns t ! i)))
    then \<exists>err. insertRow_strings ops t values = (Some err, t) \<and> is_std_exception err
    else insertRow_strings ops t values =
           (None, t\<lparr>rows := rows t @
              [map (\<lambda>(v, c). projr (parseValue ops v (col_type c))) (zip values (columns t))]\<rparr>))"
proof (cases "length values = length (columns t)")
  case False
  then show ?thesis by (simp add: insertRow_strings_def)
next
  case len: True
  show ?thesis
  proof (cases "\<exists>i < length values. conversion_throws ops (values ! i) (col_type (columns t ! i))")
    case True
    then obtain i where "i < length values"
      and "conversion_throws ops (values ! i) (col_type (columns t ! i))" by blast
    from convert_values_Inl [OF len this] True show ?thesis
      by (auto simp: insertRow_strings_def len)
  next
    case False
    then have "\<forall>i < length values. \<not> conversion_throws ops (values ! i) (col_type (columns t ! i))"
      by blast
    from convert_values_Inr [OF len this] False len show ?thesis
      by (simp add: insertRow_strings_def)
  qed
qed

theorem insertRow_strings_all_or_nothing_witness:
  "insertRow_strings decimal_ops example_table [''7'', ''x''] =
     (None, example_table\<lparr>rows := [[VInt 7, VString ''x'']]\<rparr>) \<and>
   (\<exists>err. insertRow_strings decimal_ops example_table [''x'', ''7''] = (Some err, example_table) \<and>
          is_std_exception err)"
proof -
  note flds = example_table_fields
  have good: "\<not> (length [''7'', ''x''] \<noteq> length (columns example_table) \<or>
      (\<exists>i < length [''7'', ''x''].
         conversion_throws decimal_ops ([''7'', ''x''] ! i) (col_type (columns example_table ! i))))"
    by (simp add: flds conversion_throws_def stoi_7 Ex_less_Suc)
  have bad: "length [''x'', ''7''] \<noteq> length (columns example_table) \<or>
      (\<exists>i < length [''x'', ''7''].
         conversion_throws decimal_ops ([''x'', ''7''] ! i) (col_type (columns example_table ! i)))"
    by (simp add: flds conversion_throws_def stoi_x Ex_less_Suc)
  from insertRow_strings_all_or_nothing [of "[''7'', ''x'']" example_table decimal_ops] good
  have "insertRow_strings decimal_ops example_table [''7'', ''x''] =
          (None, example_table\<lparr>rows := [[VInt 7, VString ''x'']]\<rparr>)"
    by (simp add: flds parseValue_def stoi_7)
  moreover
  from insertRow_strings_all_or_nothing [of "[''x'', ''7'']" example_table decimal_ops] bad
  have "\<exists>err. insertRow_strings decimal_ops example_table [''x'', ''7''] = (Some err, example_table) \<and>
              is_std_exception err"
    by simp
  ultimately show ?thesis by simp
qed

text \<open>
  C4 (as stated) fails: \<^verbatim>\<open>12abc\<close> is not a valid integer, yet in a column declared \<^verbatim>\<open>int\<close>
  it raises no error: \<^verbatim>\<open>std::stoi\<close> converts the prefix and the row is appended with the
  value 12.
\<close>

theorem insertRow_strings_numeric_prefix_counterexample:
  "\<not> valid_integer_text ''12abc'' \<and>
   col_type (columns example_table ! 0) = ''int'' \<and>
   insertRow_strings decimal_ops example_table [''12abc'', ''x''] =
     (None, example_table\<lparr>rows := [[VInt 12, VString ''x'']]\<rparr>)"
  by (simp add: valid_integer_text_def isdigit_def less_eq_char_def insertRow_strings_def
                example_table_fields parseValue_def stoi_examples(1))

text \<open>
  C5. For every input string and every engine state, \<^verbatim>\<open>executeQuery\<close> lets no exception
  out: an error raised while parsing or while dispatching is caught and becomes the line
  \<^verbatim>\<open>Error: ...\<close> on \<^verbatim>\<open>std::cerr\<close>. The call returns normally from every engine state
  whose tables are consistent (every row has as many values as there are columns), and
  so at every step of every session that starts from the empty engine; the only other
  way out of the call is an unchecked vector access outside the row, which is not an
  exception.
\<close>

theorem executeQuery_returns_normally:
  "(parse query = Inl err \<longrightarrow>
      executeQuery ops e query = (None, e, [Cerr (''Error: '' @ what err)])) \<and>
   (parse query = Inr pq \<and> dispatch ops e pq = (Some err, e1, out1) \<and> is_std_exception err \<longrightarrow>
      executeQuery ops e query = (None, e1, out1 @ [Cerr (''Error: '' @ what err)])) \<and>
   (fst (executeQuery ops e query) = Some err \<longrightarrow> err = OutOfBounds) \<and>
   (engine_ok e \<longrightarrow>
      fst (executeQuery ops e query) = None \<and>
      engine_ok (fst (snd (executeQuery ops e query)))) \<and>
   fst (execute_all ops new_DatabaseEngine qs) = None"
proof (intro conjI impI)
  show "executeQuery ops e query = (None, e, [Cerr (''Error: '' @ what err)])"
    if "parse query = Inl err"
    using that parse_error_std [OF that]
    by (simp add: executeQuery_def catch_std_exception_def)
  show "executeQuery ops e query = (None, e1, out1 @ [Cerr (''Error: '' @ what err)])"
    if "parse query = Inr pq \<and> dispatch ops e pq = (Some err, e1, out1) \<and> is_std_exception err"
    using that by (simp add: executeQuery_def catch_std_exception_def)
  show "err = OutOfBounds" if "fst (executeQuery ops e query) = Some err"
  proof -
    have "\<not> is_std_exception err"
      using that
      by (auto simp: executeQuery_def catch_std_exception_def split: sum.splits prod.splits
               option.splits if_splits)
    then show ?thesis by (cases err) simp_all
  qed
next
  assume ok: "engine_ok e"
  obtain r e' out where x: "executeQuery ops e query = (r, e', out)"
    by (cases "executeQuery ops e query")
  from executeQuery_ok [OF ok x] x
  show "fst (executeQuery ops e query) = None"
    and "engine_ok (fst (snd (executeQuery ops e query)))"
    by simp_all
next
  obtain r e' outs where x: "execute_all ops new_DatabaseEngine qs = (r, e', outs)"
    by (cases "execute_all ops new_DatabaseEngine qs")
  from execute_all_ok [OF engine_ok_new(1) x] x
  show "fst (execute_all ops new_DatabaseEngine qs) = None" by simp
qed

theorem executeQuery_returns_normally_witness:
  "engine_ok example_engine \<and>
   executeQuery decimal_ops example_engine ''DROP TABLE'' =
     (None, example_engine, [Cerr ''Error: Invalid DROP TABLE syntax'']) \<and>
   fst (executeQuery decimal_ops example_engine ''INSERT INTO t VALUES ( x, y)'') = None \<and>
   snd (snd (executeQuery decimal_ops example_engine ''INSERT INTO t VALUES ( x, y)'')) =
     [Cerr ''Error: stoi'']"
  using executeQuery_returns_normally [of "''DROP TABLE''"
          "RuntimeError ''Invalid DROP TABLE syntax''" decimal_ops example_engine]
        executeQuery_returns_normally [of "''INSERT INTO t VALUES ( x, y)''" _ decimal_ops
          example_engine]
        engine_ok_example_engine parse_drop_table_alone execute_bad_insert
  by simp

text \<open>
  C6. For every table (whose index map agrees with its columns), every row and every
  condition string: if the condition has fewer than three whitespace-separated tokens,
  \<^verbatim>\<open>evaluateCondition\<close> returns true, and \<^verbatim>\<open>selectRows\<close> with that condition returns the
  index of every row; if it has at least three tokens and its first token is not the name
  of a column, \<^verbatim>\<open>evaluateCondition\<close> returns false.
\<close>

theorem evaluateCondition_short_or_unknown_column:
  assumes "index_ok t"
  shows "(length (extract_all condition) < 3 \<longrightarrow>
            evaluateCondition ops t row condition = Inr True \<and>
            selectRows ops t condition = Inr [0 ..< length (rows t)]) \<and>
         (3 \<le> length (extract_all condition) \<and>
          hd (extract_all condition) \<notin> set (map col_name (columns t)) \<longrightarrow>
            evaluateCondition ops t row condition = Inr False)"
proof (intro conjI impI)
  assume short: "length (extract_all condition) < 3"
  then show "evaluateCondition ops t row condition = Inr True"
    by (rule evaluateCondition_short)
  from short show "selectRows ops t condition = Inr [0 ..< length (rows t)]"
    unfolding selectRows_def
    using select_from_all [of "rows t" condition ops t 0] by (simp add: evaluateCondition_short)
next
  assume "3 \<le> length (extract_all condition) \<and>
          hd (extract_all condition) \<notin> set (map col_name (columns t))"
  then obtain c op v rest where toks: "extract_all condition = c # op # v # rest"
    and c: "c \<notin> set (map col_name (columns t))"
    by (auto simp: numeral_3_eq_3 Suc_le_length_iff)
  from c assms have "\<not> hasColumn t c" by (simp add: hasColumn_iff)
  with toks show "evaluateCondition ops t row condition = Inr False"
    by (simp add: evaluateCondition_def)
qed

theorem evaluateCondition_short_or_unknown_column_witness:
  "index_ok example_table \<and>
   evaluateCondition decimal_ops example_table [VInt 7, VString ''x''] ''a >'' = Inr True \<and>
   selectRows decimal_ops example_table ''a >'' = Inr [] \<and>
   evaluateCondition decimal_ops example_table [VInt 7, VString ''x''] ''c = 1'' = Inr False"
  using evaluateCondition_short_or_unknown_column [OF index_ok_example_table, of "''a >''" decimal_ops "[VInt 7, VString ''x'']"]
    evaluateCondition_short_or_unknown_column [OF index_ok_example_table, of "''c = 1''" decimal_ops "[VInt 7, VString ''x'']"]
  by (simp add: extract_all_ex1 extract_all_ex2 example_table_fields index_ok_example_table)

text \<open>
  C7. For every \<^verbatim>\<open>CREATE TABLE\<close> statement that the parser accepts, executed on an engine
  in which the name is free: the table created has exactly the parsed columns, in their
  order, and \<^verbatim>\<open>describeTable\<close> of it prints one line per column, in that same order, and
  their count. When the statement has the form
  \<^verbatim>\<open>CREATE TABLE name ( col1 type1 , col2 type2 ... )\<close>, the parsed columns are the
  declarations in the order written (each type in lower case).
\<close>

theorem create_table_declaration_order:
  assumes "parse query = Inr pq" and "q_type pq = CREATE_TABLE"
    and "\<not> hasTable e (q_table_name pq)"
  shows "\<exists>e' t. executeQuery ops e query =
                  (None, e', [Cout (''Table '' @ quoted (q_table_name pq) @ '' created successfully.'')]) \<and>
                map_of (tables e') (q_table_name pq) = Some t \<and>
                columns t = q_columns pq \<and>
                describeTable e' (q_table_name pq) =
                  Inr ([''Table: '' @ q_table_name pq,
                        ''+----------------+----------------+'',
                        ''| Column Name    | Type           |'',
                        ''+----------------+----------------+''] @
                       map describeTable_row (q_columns pq) @
                       [''+----------------+----------------+'',
                        ''('' @ show_nat (length (q_columns pq)) @ '' columns, '' @
                          show_nat 0 @ '' rows)'']) \<and>
                (tokenize query = kw1 # kw2 # name # ''('' # declaration_tokens decls @ '')'' # rest \<and>
                 list_all declarable decls \<longrightarrow>
                   q_table_name pq = name \<and> q_columns pq = map declared_column decls)"
proof -
  let ?name = "q_table_name pq"
  let ?e1 = "e\<lparr>tables := AList.update ?name (new_Table ?name) (tables e)\<rparr>"
  have c: "createTable e ?name = (None, ?e1)" using assms(3) by (simp add: createTable_def)
  have "map_of (tables ?e1) ?name = Some (new_Table ?name)" by (simp add: update_conv')
  from add_columns_present [OF this, of "q_columns pq"] obtain t where
    a: "add_columns ?e1 ?name (q_columns pq) =
          (None, ?e1\<lparr>tables := AList.update ?name t (tables ?e1)\<rparr>)"
    and cols: "columns t = q_columns pq" and no_rows: "rows t = []"
    by (auto simp: new_Table_def)
  let ?e2 = "?e1\<lparr>tables := AList.update ?name t (tables ?e1)\<rparr>"
  have m: "map_of (tables ?e2) ?name = Some t" by (simp add: update_conv')
  have x: "executeQuery ops e query =
          (None, ?e2, [Cout (''Table '' @ quoted ?name @ '' created successfully.'')])"
    by (simp add: executeQuery_def assms(1,2) dispatch_def c a catch_std_exception_def)
  have d: "describeTable ?e2 ?name =
                  Inr ([''Table: '' @ ?name,
                        ''+----------------+----------------+'',
                        ''| Column Name    | Type           |'',
                        ''+----------------+----------------+''] @
                       map describeTable_row (q_columns pq) @
                       [''+----------------+----------------+'',
                        ''('' @ show_nat (length (q_columns pq)) @ '' columns, '' @
                          show_nat 0 @ '' rows)''])"
    unfolding describeTable_def using m cols no_rows by simp
  have g: "q_table_name pq = name \<and> q_columns pq = map declared_column decls"
    if tokenize_create_users: "tokenize query = kw1 # kw2 # name # ''('' # declaration_tokens decls @ '')'' # rest"
      and dc: "list_all declarable decls"
  proof -
    from parse_CREATE_TABLE_D [OF assms(1,2)] tokenize_create_users
    have kw: "toLower kw1 = ''create''" "toLower kw2 = ''table''" by simp_all
    from parse_create_table [OF tokenize_create_users kw dc] assms(1) show ?thesis by auto
  qed
  from x m cols d g show ?thesis by blast
qed

theorem create_table_declaration_order_witness:
  "\<exists>e' t. executeQuery decimal_ops new_DatabaseEngine
            ''CREATE TABLE users (id int, name string, age int)'' =
              (None, e', [Cout (''Table '' @ quoted ''users'' @ '' created successfully.'')]) \<and>
          map_of (tables e') ''users'' = Some t \<and>
          columns t = [Column ''id'' ''int'', Column ''name'' ''string'', Column ''age'' ''int''] \<and>
          describeTable e' ''users'' =
            Inr [''Table: users'',
                 ''+----------------+----------------+'',
                 ''| Column Name    | Type           |'',
                 ''+----------------+----------------+'',
                 ''| id             | int            |'',
                 ''| name           | string         |'',
                 ''| age            | int            |'',
                 ''+----------------+----------------+'',
                 ''(3 columns, 0 rows)'']"
proof -
  let ?pq = "new_ParsedQuery\<lparr>q_type := CREATE_TABLE, q_table_name := ''users'',
               q_columns := map declared_column [(''id'', ''int''), (''name'', ''string''), (''age'', ''int'')]\<rparr>"
  have d: "list_all declarable [(''id'', ''int''), (''name'', ''string''), (''age'', ''int'')]"
    by (simp add: declarable_def)
  have p: "parse ''CREATE TABLE users (id int, name string, age int)'' = Inr ?pq"
    using tokenize_create_users toLower_examples(1) toLower_examples(2) d by (rule parse_create_table)
  have ty: "q_type ?pq = CREATE_TABLE" by simp
  have h: "\<not> hasTable (new_DatabaseEngine :: (int \<times> nat) DatabaseEngine) (q_table_name ?pq)"
    by (simp add: hasTable_def new_DatabaseEngine_def)
  from create_table_declaration_order [OF p ty h, of decimal_ops
    "''CREATE''" "''TABLE''" "''users''" "[(''id'', ''int''), (''name'', ''string''), (''age'', ''int'')]" "[]"]
  show ?thesis by (simp add: declared_column_def toLower_examples describe_rows_users)
qed

text \<open>
  C8. \<^verbatim>\<open>dropTable\<close> on a name that is not registered raises the "not found" error and
  leaves the engine unchanged. After a successful \<^verbatim>\<open>dropTable\<close> of a name, and after any
  further statements executed since, none of which is a \<^verbatim>\<open>CREATE TABLE\<close> of that name,
  each of \<^verbatim>\<open>getTable\<close>, \<^verbatim>\<open>insertInto\<close>, \<^verbatim>\<open>select\<close>, \<^verbatim>\<open>describeTable\<close> and \<^verbatim>\<open>dropTable\<close> on
  that name fails with the "not found" error.
\<close>

theorem dropTable_then_not_found:
  "(\<not> hasTable e name \<longrightarrow> dropTable e name = (Some (not_found name), e)) \<and>
   (dropTable e name = (None, e1) \<and> list_all (\<lambda>q. \<not> creates q name) qs \<and>
    execute_all ops e1 qs = (r, e2, outs) \<longrightarrow>
      getTable e2 name = Inl (not_found name) \<and>
      insertInto ops e2 name vs = (Some (not_found name), e2) \<and>
      select ops e2 name cols w = Inl (not_found name) \<and>
      describeTable e2 name = Inl (not_found name) \<and>
      dropTable e2 name = (Some (not_found name), e2))"
proof (intro conjI impI)
  assume "\<not> hasTable e name"
  then show "dropTable e name = (Some (not_found name), e)" by (rule absent_operations_fail)
next
  assume a: "dropTable e name = (None, e1) \<and> list_all (\<lambda>q. \<not> creates q name) qs \<and>
    execute_all ops e1 qs = (r, e2, outs)"
  then have "\<not> hasTable e1 name"
    by (auto simp: dropTable_def hasTable_delete split: if_splits)
  from execute_all_keeps_absent [OF this, of qs ops r e2 outs] a
  have gone: "\<not> hasTable e2 name" by simp
  from absent_operations_fail [OF gone]
  show "getTable e2 name = Inl (not_found name)"
    and "insertInto ops e2 name vs = (Some (not_found name), e2)"
    and "select ops e2 name cols w = Inl (not_found name)"
    and "describeTable e2 name = Inl (not_found name)"
    and "dropTable e2 name = (Some (not_found name), e2)"
    by simp_all
qed

theorem dropTable_then_not_found_witness:
  "\<not> hasTable (new_DatabaseEngine :: (int \<times> nat) DatabaseEngine) ''t'' \<and>
   dropTable (new_DatabaseEngine :: (int \<times> nat) DatabaseEngine) ''t'' = (Some (not_found ''t''), new_DatabaseEngine) \<and>
   dropTable example_engine ''t'' = (None, new_DatabaseEngine) \<and>
   getTable (new_DatabaseEngine :: (int \<times> nat) DatabaseEngine) ''t'' = Inl (not_found ''t'') \<and>
   insertInto decimal_ops new_DatabaseEngine ''t'' [''1'', ''x''] = (Some (not_found ''t''), new_DatabaseEngine) \<and>
   select decimal_ops new_DatabaseEngine ''t'' [] [] = Inl (not_found ''t'') \<and>
   describeTable (new_DatabaseEngine :: (int \<times> nat) DatabaseEngine) ''t'' = Inl (not_found ''t'')"
proof -
  have h: "\<not> hasTable (new_DatabaseEngine :: (int \<times> nat) DatabaseEngine) ''t''"
    by (simp add: hasTable_def new_DatabaseEngine_def)
  have l: "list_all (\<lambda>q. \<not> creates q ''t'') [''SHOW TABLES'']" by (simp add: show_tables_creates_nothing)
  from dropTable_then_not_found [of new_DatabaseEngine "''t''" new_DatabaseEngine "[''SHOW TABLES'']" decimal_ops None new_DatabaseEngine _ "[''1'', ''x'']" "[]" "[]"]
       dropTable_then_not_found [of example_engine "''t''" new_DatabaseEngine "[''SHOW TABLES'']" decimal_ops None new_DatabaseEngine _ "[''1'', ''x'']" "[]" "[]"]
    h l dropTable_example_engine execute_show_tables_new
  show ?thesis by simp
qed

text \<open>
  C9. For every engine state (a registry with one entry per name), \<^verbatim>\<open>listTables\<close> returns
  exactly the registered names, each once, sorted in the lexicographic order of strings;
  two engines that hold the same set of names, whatever the order in which the tables
  were created, give the same list; and \<^verbatim>\<open>showTables\<close> prints one line per table, with
  its name and row count, in that sorted order.
\<close>

theorem listTables_sorted_names:
  assumes "distinct (map fst (tables e))"
  shows "sorted (listTables e) \<and> distinct (listTables e) \<and>
         set (listTables e) = {n. hasTable e n} \<and>
         (distinct (map fst (tables e2)) \<and> {n. hasTable e2 n} = {n. hasTable e n} \<longrightarrow>
            listTables e2 = listTables e) \<and>
         showTables e =
           [''Tables in database:'',
            ''+----------------+-------+'',
            ''| Table Name     | Rows  |'',
            ''+----------------+-------+''] @
           map (\<lambda>n. showTables_line n (length (rows (the (map_of (tables e) n))))) (listTables e) @
           [''+----------------+-------+'',
            ''('' @ show_nat (length (tables e)) @ '' tables)'']"
proof (intro conjI impI)
  show "sorted (listTables e)" by (simp add: listTables_def)
  show "distinct (listTables e)" using assms by (simp add: listTables_def)
  show "set (listTables e) = {n. hasTable e n}" by (simp add: listTables_def registered_names)
  show "showTables e =
           [''Tables in database:'',
            ''+----------------+-------+'',
            ''| Table Name     | Rows  |'',
            ''+----------------+-------+''] @
           map (\<lambda>n. showTables_line n (length (rows (the (map_of (tables e) n))))) (listTables e) @
           [''+----------------+-------+'',
            ''('' @ show_nat (length (tables e)) @ '' tables)'']"
    by (simp add: showTables_def showTables_rows)
next
  assume a: "distinct (map fst (tables e2)) \<and> {n. hasTable e2 n} = {n. hasTable e n}"
  then have "set (map fst (tables e2)) = set (map fst (tables e))"
    by (simp add: registered_names)
  with a assms show "listTables e2 = listTables e"
    by (simp add: listTables_def sort_distinct)
qed

theorem listTables_sorted_names_witness:
  "distinct (map fst (tables engine_ba)) \<and> distinct (map fst (tables engine_ab)) \<and>
   {n. hasTable engine_ab n} = {n. hasTable engine_ba n} \<and>
   listTables engine_ba = [''a'', ''b''] \<and> listTables engine_ab = listTables engine_ba \<and>
   showTables engine_ba =
     [''Tables in database:'',
      ''+----------------+-------+'',
      ''| Table Name     | Rows  |'',
      ''+----------------+-------+'',
      ''| a              |     0 |'',
      ''| b              |     0 |'',
      ''+----------------+-------+'',
      ''(2 tables)'']"
proof -
  have d1: "distinct (map fst (tables engine_ba))" by (simp add: tables_engine_ba)
  have d2: "distinct (map fst (tables engine_ab))" by (simp add: tables_engine_ab)
  have same: "{n. hasTable engine_ab n} = {n. hasTable engine_ba n}"
    by (auto simp: registered_names tables_engine_ab tables_engine_ba)
  have l: "listTables engine_ba = [''a'', ''b'']" by (simp add: listTables_def tables_engine_ba sort_b_a)
  from listTables_sorted_names [OF d1, of engine_ab] d2 same l
  have "listTables engine_ab = listTables engine_ba" 
    and "showTables engine_ba =
           [''Tables in database:'',
            ''+----------------+-------+'',
            ''| Table Name     | Rows  |'',
            ''+----------------+-------+''] @
           map (\<lambda>n. showTables_line n (length (rows (the (map_of (tables engine_ba) n))))) [''a'', ''b''] @
           [''+----------------+-------+'',
            ''('' @ show_nat (length (tables engine_ba)) @ '' tables)'']"
    by simp_all
  moreover have "showTables_line ''a'' 0 = ''| a              |     0 |''"
    and "showTables_line ''b'' 0 = ''| b              |     0 |''"
    and "show_nat (Suc (Suc 0)) = ''2''"
    by code_simp+
  ultimately show ?thesis using d1 d2 same l
    by (simp add: tables_engine_ba new_Table_def)
qed

text \<open>
  C10 (as amended). For every row of a table and every condition string of exactly three
  whitespace-separated tokens whose first token names a column, whose operator token is
  none of \<^verbatim>\<open>= != < > <= >=\<close> and whose literal token converts under the declared type of
  that column, \<^verbatim>\<open>evaluateCondition\<close> returns false and raises no error.
\<close>

theorem evaluateCondition_unknown_operator:
  assumes "index_ok t"
    and "extract_all condition = [c, op, v]"
    and "c \<in> set (map col_name (columns t))"
    and "op \<notin> {''='', ''!='', ''<'', ''>'', ''<='', ''>=''}"
    and "length row = length (columns t)"
    and "\<forall>col \<in> set (columns t). col_name col = c \<longrightarrow> \<not> conversion_throws ops v (col_type col)"
  shows "evaluateCondition ops t row condition = Inr False"
proof -
  from assms(1,3) have "hasColumn t c" by (simp add: hasColumn_iff)
  then obtain i where i: "column_index_map t c = Some i" by (auto simp: hasColumn_def)
  with index_okD(2) [OF assms(1)] have lt: "i < length (columns t)" and nm: "col_name (columns t ! i) = c"
    by auto
  with assms(6) have "\<not> conversion_throws ops v (col_type (columns t ! i))" by auto
  then obtain x where x: "parseValue ops v (col_type (columns t ! i)) = Inr x"
    using parseValue_fails_iff [of ops v "col_type (columns t ! i)"]
    by (cases "parseValue ops v (col_type (columns t ! i))") auto
  show ?thesis
    using assms(2,4,5) \<open>hasColumn t c\<close> i lt x
    by (simp add: evaluateCondition_def getColumnIndex_def)
qed


theorem evaluateCondition_unknown_operator_witness:
  "evaluateCondition decimal_ops example_table [VInt 7, VString ''x''] ''a ~ 7'' = Inr False"
proof -
  have "\<forall>col \<in> set (columns example_table). col_name col = ''a'' \<longrightarrow> \<not> conversion_throws decimal_ops ''7'' (col_type col)"
    by (simp add: example_table_fields conversion_throws_def stoi_7)
  from evaluateCondition_unknown_operator [OF index_ok_example_table extract_all_ex4 _ _ _ this, of "[VInt 7, VString ''x'']"]
  show ?thesis by (simp add: example_table_fields)
qed

text \<open>
  C10 (as stated) fails: the literal is converted before the operator is looked at, so on
  the \<^verbatim>\<open>int\<close> column \<^verbatim>\<open>a\<close> the condition \<^verbatim>\<open>a ~ x\<close> raises the \<^verbatim>\<open>std::invalid_argument\<close> of
  \<^verbatim>\<open>std::stoi\<close> instead of returning false.
\<close>

theorem evaluateCondition_unknown_operator_counterexample:
  "extract_all ''a ~ x'' = [''a'', ''~'', ''x''] \<and> hasColumn example_table ''a'' \<and>
   evaluateCondition decimal_ops example_table [VInt 7, VString ''x''] ''a ~ x'' = Inl (InvalidArgument ''stoi'')"
  by (simp add: extract_all_ex3 evaluateCondition_def hasColumn_example_a getColumnIndex_example_a example_table_fields(1) parseValue_x_int)

end
